theory Spec2Isabelle
  imports Main
begin

section \<open>mqtt\_to\_sqlite: data model\<close>

text \<open>
  The program \<^verbatim>\<open>mqtt_to_sqlite.c\<close> keeps its state in file-scope globals and talks to
  three collaborators: the wall clock and the shell (\<^verbatim>\<open>time\<close>, \<^verbatim>\<open>system\<close>), the SQLite
  library and the mosquitto client library. The embedding passes the globals explicitly
  as a record, takes every value that a collaborator hands back (clock readings, return
  codes, allocation results) as an argument of the function that reads it, and records
  what the program does to the outside (commands run, library requests, lines written to
  the error stream) in a chronological trace.

  \<^verbatim>\<open>time_t\<close> and \<^verbatim>\<open>int\<close> are modelled by \<open>int\<close>: the only arithmetic on them is the
  subtraction \<^verbatim>\<open>now - g_last_script_run\<close>, whose operands are clock readings (at least
  \<open>-1\<close>) or the initial \<open>0\<close>, so the difference cannot leave the range of the type.
  Bytes and characters are \<open>char\<close>; a C string is the \<open>char list\<close> before its
  terminating NUL.
\<close>

type_synonym time_t = int

subsection \<open>The SQLite interface\<close>

datatype sql_value = SqlNull | SqlInteger int | SqlText string

record row =
  col_id :: nat
  col_ts :: int
  col_topic :: string
  col_payload :: string
  col_qos :: int
  col_retain :: int

datatype sql_object =
    Table string "string list"
  | Index string string string

datatype ddl_stmt =
    CreateTableIfNotExists string "string list"
  | CreateIndexIfNotExists string string string

record database =
  objects :: "sql_object list"
  rows :: "row list"
  seq :: nat
  journal_mode :: string

datatype stmt_state = Ready | Done | Failed

text \<open>A database connection (\<^verbatim>\<open>sqlite3 *\<close>) and a prepared statement
  (\<^verbatim>\<open>sqlite3_stmt *\<close>) of the \<^verbatim>\<open>INSERT\<close> with five parameters.\<close>

record sqlite3 =
  conn_path :: string
  synchronous :: string
  temp_store :: string

record sqlite3_stmt =
  stmt_db :: string
  bindings :: "sql_value list"
  stmt_state :: stmt_state

text \<open>What can go wrong inside the library for reasons outside the program: the
  program only ever compares a result code with \<^verbatim>\<open>SQLITE_OK\<close> or \<^verbatim>\<open>SQLITE_DONE\<close>.\<close>

datatype fault = NoFault | IoError | Corrupt | DiskFull | CantOpen

definition SQLITE_OK :: int where "SQLITE_OK = 0"
definition SQLITE_ERROR :: int where "SQLITE_ERROR = 1"
definition SQLITE_CONSTRAINT :: int where "SQLITE_CONSTRAINT = 19"
definition SQLITE_MISUSE :: int where "SQLITE_MISUSE = 21"
definition SQLITE_DONE :: int where "SQLITE_DONE = 101"

fun fault_code :: "fault \<Rightarrow> int" where
  "fault_code NoFault = 0"
| "fault_code IoError = 10"
| "fault_code Corrupt = 11"
| "fault_code DiskFull = 13"
| "fault_code CantOpen = 14"

subsection \<open>The mosquitto interface\<close>

definition MOSQ_ERR_SUCCESS :: int where "MOSQ_ERR_SUCCESS = 0"

text \<open>\<^verbatim>\<open>struct mosquitto_message\<close>: \<open>msg_topic\<close> and \<open>msg_payload\<close> are pointers, \<open>None\<close> is
  \<^verbatim>\<open>NULL\<close>; \<open>msg_payload\<close> holds the bytes of the buffer it points to.\<close>

record mosquitto_message =
  msg_topic :: "string option"
  msg_payload :: "char list option"
  msg_payloadlen :: int
  msg_qos :: int
  msg_retain :: int

subsection \<open>What the program does to the outside\<close>

datatype event =
    LogThrottled
  | StderrRunning string
  | System string
  | PerrorSystem
  | LogRepairExit int
  | StderrOpenFailed
  | StderrDdlFailed
  | StderrPrepareFailed
  | StderrStepFailed
  | LogConnected int
  | MosqSubscribe string int
  | StderrSubscribeFailed int
  | StderrSubscribed string
  | LogDisconnected int
  | StderrMsg "string option" int "char list option"
  | StderrInitFailed string
  | MosqLibInit
  | MosqNew string bool
  | StderrNewFailed
  | MosqCallbacksSet
  | MosqReconnectDelaySet bool int int
  | MosqConnect string int int
  | StderrInitialConnectFailed int
  | MosqLoopForever
  | StderrLoopEnded int
  | MosqDisconnect
  | MosqDestroy
  | MosqLibCleanup

subsection \<open>The globals\<close>

record state =
  g_should_stop :: bool
  g_db :: "sqlite3 option"
  g_stmt_insert :: "sqlite3_stmt option"
  g_mosq :: "string option"
  g_broker_host :: string
  g_broker_port :: int
  g_topic :: string
  g_db_path :: string
  g_netfix_script :: string
  g_reconnect_min :: int
  g_reconnect_max :: int
  g_last_script_run :: time_t
  files :: "string \<rightharpoonup> database"
  trace :: "event list"

definition SCRIPT_MIN_INTERVAL_SEC :: int where
  "SCRIPT_MIN_INTERVAL_SEC = 20"

text \<open>The static initialisers of the globals; \<open>fs\<close> is the file system the process
  starts on.\<close>

definition initial_state :: "(string \<rightharpoonup> database) \<Rightarrow> state" where
  "initial_state fs =
     \<lparr> g_should_stop = False,
       g_db = None,
       g_stmt_insert = None,
       g_mosq = None,
       g_broker_host = ''192.168.4.1'',
       g_broker_port = 1883,
       g_topic = ''#'',
       g_db_path = ''./mqtt_messages.db'',
       g_netfix_script = ''./handle_network_error.sh'',
       g_reconnect_min = 2,
       g_reconnect_max = 60,
       g_last_script_run = 0,
       files = fs,
       trace = [] \<rparr>"

definition emit :: "event list \<Rightarrow> state \<Rightarrow> state" where
  "emit es s = s\<lparr>trace := trace s @ es\<rparr>"

section \<open>Helpers\<close>

text \<open>\<^verbatim>\<open>snprintf(buf, n, ...)\<close> keeps at most \<open>n - 1\<close> characters.\<close>

definition snprintf :: "nat \<Rightarrow> string \<Rightarrow> string" where
  "snprintf n s = take (n - 1) s"

definition env_or_default :: "(string \<rightharpoonup> string) \<Rightarrow> string \<Rightarrow> string \<Rightarrow> string" where
  "env_or_default environ name defval =
     (case environ name of
        None \<Rightarrow> defval
      | Some v \<Rightarrow> if v \<noteq> [] then v else defval)"

subsection \<open>\<^verbatim>\<open>strtol\<close> in base 10\<close>

definition isspace :: "char \<Rightarrow> bool" where
  "isspace c = (of_char c \<in> {32, 9, 10, 11, 12, 13 :: nat})"

definition isdigit :: "char \<Rightarrow> bool" where
  "isdigit c = (48 \<le> (of_char c :: nat) \<and> (of_char c :: nat) \<le> 57)"

definition LONG_MAX :: int where "LONG_MAX = 2 ^ 63 - 1"
definition LONG_MIN :: int where "LONG_MIN = - (2 ^ 63)"

fun digits_value :: "int \<Rightarrow> string \<Rightarrow> int" where
  "digits_value acc [] = acc"
| "digits_value acc (c # cs) = digits_value (acc * 10 + (int (of_char c) - 48)) cs"

text \<open>The subject sequence of \<^verbatim>\<open>strtol\<close>: leading white space is skipped, then one
  optional sign.\<close>

definition skip_sign :: "string \<Rightarrow> bool \<times> string" where
  "skip_sign r =
     (case r of
        [] \<Rightarrow> (False, [])
      | c # cs \<Rightarrow>
          if c = CHR ''-'' then (True, cs)
          else if c = CHR ''+'' then (False, cs)
          else (False, r))"

text \<open>\<open>strtol v\<close> returns the converted value and the offset of \<^verbatim>\<open>end\<close> in \<open>v\<close>. With
  no digits nothing is converted and \<^verbatim>\<open>end == v\<close>; a value outside \<^verbatim>\<open>long\<close> is
  clamped.\<close>

definition strtol :: "string \<Rightarrow> int \<times> nat" where
  "strtol v =
     (let r = dropWhile isspace v;
          (neg, r') = skip_sign r;
          ds = takeWhile isdigit r'
      in if ds = [] then (0, 0)
         else
           (let x = (if neg then - digits_value 0 ds else digits_value 0 ds)
            in (if x > LONG_MAX then LONG_MAX else if x < LONG_MIN then LONG_MIN else x,
                (length v - length r') + length ds)))"

definition env_or_default_int :: "(string \<rightharpoonup> string) \<Rightarrow> string \<Rightarrow> int \<Rightarrow> int" where
  "env_or_default_int environ name defval =
     (case environ name of
        None \<Rightarrow> defval
      | Some v \<Rightarrow>
          if v = [] then defval
          else
            (let (x, e) = strtol v
             in if e = 0 \<or> e < length v then defval
                else if x < 0 \<or> x > 1000000 then defval
                else x))"

section \<open>Repair trigger\<close>

text \<open>\<^verbatim>\<open>WEXITSTATUS(rc)\<close> is bits 8 to 15 of the wait status.\<close>

definition WEXITSTATUS :: "int \<Rightarrow> int" where
  "WEXITSTATUS rc = (rc div 256) mod 256"

text \<open>\<open>now\<close> is what \<^verbatim>\<open>time(NULL)\<close> returns, \<open>sys_rc\<close> what \<^verbatim>\<open>system(cmd)\<close> returns if it
  is called.\<close>

definition run_network_repair_script :: "time_t \<Rightarrow> int \<Rightarrow> state \<Rightarrow> int \<times> state" where
  "run_network_repair_script now sys_rc s =
     (if now - g_last_script_run s < SCRIPT_MIN_INTERVAL_SEC then
        (0, emit [LogThrottled] s)
      else
        (let s1 = s\<lparr>g_last_script_run := now\<rparr>;
             cmd = snprintf 512 (''sh -c '' @ [CHR 0x27] @ g_netfix_script s1 @ [CHR 0x27]);
             s2 = emit [StderrRunning cmd, System cmd] s1
         in if sys_rc = - 1 then (- 1, emit [PerrorSystem] s2)
            else (0, emit [LogRepairExit (WEXITSTATUS sys_rc)] s2)))"

text \<open>How often the repair command has been run.\<close>

fun is_System :: "event \<Rightarrow> bool" where
  "is_System (System cmd) = True"
| "is_System _ = False"

definition repair_runs :: "state \<Rightarrow> nat" where
  "repair_runs s = length (filter is_System (trace s))"

section \<open>SQLite as the program uses it\<close>

text \<open>
  The library is not part of the repository. What follows is the documented behaviour of
  the calls the program makes, for the statements it passes: \<^verbatim>\<open>CREATE ... IF NOT EXISTS\<close>
  does nothing when an object of that kind and name exists, a statement that has been
  stepped must be reset before it is bound or stepped again (\<^verbatim>\<open>SQLITE_MISUSE\<close>
  otherwise), \<^verbatim>\<open>sqlite3_bind_text\<close> with length \<open>-1\<close> reads up to the first NUL and binds
  SQL NULL for a \<^verbatim>\<open>NULL\<close> pointer, every column of \<^verbatim>\<open>messages\<close> is \<^verbatim>\<open>NOT NULL\<close>.
\<close>

definition empty_database :: database where
  "empty_database = \<lparr> objects = [], rows = [], seq = 0, journal_mode = ''delete'' \<rparr>"

fun is_table_named :: "string \<Rightarrow> sql_object \<Rightarrow> bool" where
  "is_table_named n (Table m cols) = (m = n)"
| "is_table_named n (Index m t c) = False"

fun is_index_named :: "string \<Rightarrow> sql_object \<Rightarrow> bool" where
  "is_index_named n (Index m t c) = (m = n)"
| "is_index_named n (Table m cols) = False"

fun has_column :: "string \<Rightarrow> string \<Rightarrow> sql_object \<Rightarrow> bool" where
  "has_column t c (Table m cols) = (m = t \<and> c \<in> set cols)"
| "has_column t c (Index m t' c') = False"

text \<open>One DDL statement on the schema; \<open>None\<close> is an SQL error.\<close>

fun exec_ddl_stmt :: "ddl_stmt \<Rightarrow> sql_object list \<Rightarrow> sql_object list option" where
  "exec_ddl_stmt (CreateTableIfNotExists n cols) os =
     (if list_ex (is_table_named n) os then Some os
      else if list_ex (is_index_named n) os then None
      else Some (os @ [Table n cols]))"
| "exec_ddl_stmt (CreateIndexIfNotExists n t c) os =
     (if list_ex (is_index_named n) os then Some os
      else if list_ex (is_table_named n) os then None
      else if list_ex (has_column t c) os then Some (os @ [Index n t c])
      else None)"

text \<open>\<^verbatim>\<open>sqlite3_exec\<close> runs the statements of its text in order and stops at the first
  error.\<close>

fun exec_script :: "ddl_stmt list \<Rightarrow> sql_object list \<Rightarrow> int \<times> sql_object list" where
  "exec_script [] os = (SQLITE_OK, os)"
| "exec_script (d # ds) os =
     (case exec_ddl_stmt d os of
        None \<Rightarrow> (SQLITE_ERROR, os)
      | Some os' \<Rightarrow> exec_script ds os')"

text \<open>\<^verbatim>\<open>sqlite3_open\<close> creates the database when the file does not exist. The handle it
  leaves behind on failure is only read for the error text.\<close>

definition sqlite3_open ::
  "fault \<Rightarrow> string \<Rightarrow> (string \<rightharpoonup> database) \<Rightarrow> int \<times> sqlite3 option \<times> (string \<rightharpoonup> database)" where
  "sqlite3_open f path fs =
     (if f \<noteq> NoFault then (fault_code f, None, fs)
      else (SQLITE_OK,
            Some \<lparr> conn_path = path, synchronous = ''FULL'', temp_store = ''DEFAULT'' \<rparr>,
            (case fs path of None \<Rightarrow> fs(path \<mapsto> empty_database) | Some db \<Rightarrow> fs)))"

datatype pragma = JournalModeWAL | SynchronousNormal | TempStoreMemory

fun sqlite3_exec_pragma ::
  "pragma \<Rightarrow> sqlite3 \<Rightarrow> (string \<rightharpoonup> database) \<Rightarrow> sqlite3 \<times> (string \<rightharpoonup> database)" where
  "sqlite3_exec_pragma JournalModeWAL c fs =
     (c, case fs (conn_path c) of
           None \<Rightarrow> fs
         | Some db \<Rightarrow> fs(conn_path c \<mapsto> db\<lparr>journal_mode := ''wal''\<rparr>))"
| "sqlite3_exec_pragma SynchronousNormal c fs = (c\<lparr>synchronous := ''NORMAL''\<rparr>, fs)"
| "sqlite3_exec_pragma TempStoreMemory c fs = (c\<lparr>temp_store := ''MEMORY''\<rparr>, fs)"

definition sqlite3_exec ::
  "fault \<Rightarrow> ddl_stmt list \<Rightarrow> sqlite3 \<Rightarrow> (string \<rightharpoonup> database) \<Rightarrow> int \<times> (string \<rightharpoonup> database)" where
  "sqlite3_exec f script c fs =
     (if f \<noteq> NoFault then (fault_code f, fs)
      else
        (case fs (conn_path c) of
           None \<Rightarrow> (SQLITE_ERROR, fs)
         | Some db \<Rightarrow>
             (let (rc, os) = exec_script script (objects db)
              in (rc, fs(conn_path c \<mapsto> db\<lparr>objects := os\<rparr>)))))"

text \<open>Preparing the \<^verbatim>\<open>INSERT\<close> needs the table and the five columns it names.\<close>

definition insert_columns :: "string list" where
  "insert_columns = [''ts'', ''topic'', ''payload'', ''qos'', ''retain'']"

definition sqlite3_prepare_v2 ::
  "fault \<Rightarrow> sqlite3 \<Rightarrow> (string \<rightharpoonup> database) \<Rightarrow> int \<times> sqlite3_stmt option" where
  "sqlite3_prepare_v2 f c fs =
     (if f \<noteq> NoFault then (fault_code f, None)
      else
        (case fs (conn_path c) of
           None \<Rightarrow> (SQLITE_ERROR, None)
         | Some db \<Rightarrow>
             if list_all (\<lambda>col. list_ex (has_column ''messages'' col) (objects db)) insert_columns
             then (SQLITE_OK,
                   Some \<lparr> stmt_db = conn_path c, bindings = replicate 5 SqlNull,
                          stmt_state = Ready \<rparr>)
             else (SQLITE_ERROR, None)))"

definition sqlite3_reset :: "sqlite3_stmt \<Rightarrow> sqlite3_stmt" where
  "sqlite3_reset st = st\<lparr>stmt_state := Ready\<rparr>"

definition sqlite3_clear_bindings :: "sqlite3_stmt \<Rightarrow> sqlite3_stmt" where
  "sqlite3_clear_bindings st = st\<lparr>bindings := replicate (length (bindings st)) SqlNull\<rparr>"

text \<open>Parameters are numbered from 1; a binding is refused on a statement that has been
  stepped and not reset, and for an index out of range.\<close>

definition sqlite3_bind :: "nat \<Rightarrow> sql_value \<Rightarrow> sqlite3_stmt \<Rightarrow> sqlite3_stmt" where
  "sqlite3_bind i v st =
     (if stmt_state st = Ready \<and> 1 \<le> i \<and> i \<le> length (bindings st)
      then st\<lparr>bindings := (bindings st)[i - 1 := v]\<rparr>
      else st)"

definition sqlite3_bind_int64 :: "nat \<Rightarrow> int \<Rightarrow> sqlite3_stmt \<Rightarrow> sqlite3_stmt" where
  "sqlite3_bind_int64 i x st = sqlite3_bind i (SqlInteger x) st"

definition sqlite3_bind_int :: "nat \<Rightarrow> int \<Rightarrow> sqlite3_stmt \<Rightarrow> sqlite3_stmt" where
  "sqlite3_bind_int i x st = sqlite3_bind i (SqlInteger x) st"

text \<open>The text of a C string: the bytes before the first NUL.\<close>

definition c_str :: "char list \<Rightarrow> string" where
  "c_str bs = takeWhile (\<lambda>c. c \<noteq> CHR 0x00) bs"

definition sqlite3_bind_text :: "nat \<Rightarrow> char list option \<Rightarrow> sqlite3_stmt \<Rightarrow> sqlite3_stmt" where
  "sqlite3_bind_text i p st =
     sqlite3_bind i (case p of None \<Rightarrow> SqlNull | Some bs \<Rightarrow> SqlText (c_str bs)) st"

text \<open>One step of the \<^verbatim>\<open>INSERT\<close>: the row is added with the next \<^verbatim>\<open>AUTOINCREMENT\<close> id
  unless the engine hits a fault or a \<^verbatim>\<open>NOT NULL\<close> column is bound to NULL. The program
  binds an integer to the integer columns and a text or NULL to the text columns, so
  a row that is not of this shape is one with a NULL in it.\<close>

definition sqlite3_step ::
  "fault \<Rightarrow> sqlite3_stmt \<Rightarrow> (string \<rightharpoonup> database)
     \<Rightarrow> int \<times> sqlite3_stmt \<times> (string \<rightharpoonup> database)" where
  "sqlite3_step f st fs =
     (if stmt_state st \<noteq> Ready then (SQLITE_MISUSE, st, fs)
      else if f \<noteq> NoFault then (fault_code f, st\<lparr>stmt_state := Failed\<rparr>, fs)
      else
        (case (fs (stmt_db st), bindings st) of
           (Some db, [SqlInteger t, SqlText tp, SqlText pl, SqlInteger q, SqlInteger r]) \<Rightarrow>
             (SQLITE_DONE, st\<lparr>stmt_state := Done\<rparr>,
              fs(stmt_db st \<mapsto>
                 db\<lparr>rows := rows db @
                        [\<lparr> col_id = Suc (seq db), col_ts = t, col_topic = tp,
                            col_payload = pl, col_qos = q, col_retain = r \<rparr>],
                    seq := Suc (seq db)\<rparr>))
         | _ \<Rightarrow> (SQLITE_CONSTRAINT, st\<lparr>stmt_state := Failed\<rparr>, fs)))"

section \<open>Store writer\<close>

text \<open>The schema text of \<^verbatim>\<open>db_init\<close>, statement by statement.\<close>

definition ddl :: "ddl_stmt list" where
  "ddl =
     [CreateTableIfNotExists ''messages''
        [''id'', ''ts'', ''topic'', ''payload'', ''qos'', ''retain''],
      CreateIndexIfNotExists ''idx_messages_ts'' ''messages'' ''ts'',
      CreateIndexIfNotExists ''idx_messages_topic'' ''messages'' ''topic'']"

text \<open>\<open>f_open\<close>, \<open>f_ddl\<close> and \<open>f_prepare\<close> are the faults the library meets in
  \<^verbatim>\<open>sqlite3_open\<close>, in \<^verbatim>\<open>sqlite3_exec\<close> of the schema and in \<^verbatim>\<open>sqlite3_prepare_v2\<close>.
  The results of the three \<^verbatim>\<open>PRAGMA\<close> calls are not looked at. A successful open that
  left no handle cannot happen in the library; every call on a \<^verbatim>\<open>NULL\<close> handle would be
  refused, the schema call being the first whose result is checked.\<close>

definition db_init :: "fault \<Rightarrow> fault \<Rightarrow> fault \<Rightarrow> string \<Rightarrow> state \<Rightarrow> int \<times> state" where
  "db_init f_open f_ddl f_prepare path s =
     (let (rc, h, fs1) = sqlite3_open f_open path (files s);
          s1 = s\<lparr>g_db := h, files := fs1\<rparr>
      in if rc \<noteq> SQLITE_OK then (- 1, emit [StderrOpenFailed] s1)
         else
           case h of
             None \<Rightarrow> (- 1, emit [StderrDdlFailed] s1)
           | Some c0 \<Rightarrow>
               (let (c1, fs2) = sqlite3_exec_pragma JournalModeWAL c0 fs1;
                    (c2, fs3) = sqlite3_exec_pragma SynchronousNormal c1 fs2;
                    (c3, fs4) = sqlite3_exec_pragma TempStoreMemory c2 fs3;
                    (rc, fs5) = sqlite3_exec f_ddl ddl c3 fs4;
                    s2 = s1\<lparr>g_db := Some c3, files := fs5\<rparr>
                in if rc \<noteq> SQLITE_OK then (- 1, emit [StderrDdlFailed] s2)
                   else
                     (let (rc, st) = sqlite3_prepare_v2 f_prepare c3 fs5;
                          s3 = s2\<lparr>g_stmt_insert := st\<rparr>
                      in if rc \<noteq> SQLITE_OK then (- 1, emit [StderrPrepareFailed] s3)
                         else (0, s3))))"

definition db_close :: "state \<Rightarrow> state" where
  "db_close s =
     (let s1 = (if g_stmt_insert s \<noteq> None then s\<lparr>g_stmt_insert := None\<rparr> else s)
      in if g_db s1 \<noteq> None then s1\<lparr>g_db := None\<rparr> else s1)"

text \<open>The buffer \<^verbatim>\<open>pl\<close> of \<^verbatim>\<open>db_insert_message\<close>: \<open>payloadlen\<close> bytes copied from the
  payload and a NUL after them, or \<^verbatim>\<open>NULL\<close> when there is nothing to copy or
  \<^verbatim>\<open>malloc\<close> fails (\<open>malloc_ok\<close> is whether it succeeds).\<close>

definition payload_buffer :: "bool \<Rightarrow> char list option \<Rightarrow> int \<Rightarrow> char list option" where
  "payload_buffer malloc_ok payload payloadlen =
     (case payload of
        None \<Rightarrow> None
      | Some bs \<Rightarrow>
          if payloadlen \<ge> 0 then
            (if malloc_ok then Some (take (nat payloadlen) bs @ [CHR 0x00]) else None)
          else None)"

text \<open>\<open>now\<close> is the clock reading, \<open>f_step\<close> the fault the engine meets in
  \<^verbatim>\<open>sqlite3_step\<close>.\<close>

definition db_insert_message ::
  "time_t \<Rightarrow> bool \<Rightarrow> fault \<Rightarrow> string option \<Rightarrow> char list option \<Rightarrow> int \<Rightarrow> int \<Rightarrow> int
     \<Rightarrow> state \<Rightarrow> state" where
  "db_insert_message now malloc_ok f_step topic payload payloadlen qos retain s =
     (case g_stmt_insert s of
        None \<Rightarrow> s
      | Some st0 \<Rightarrow>
          (let st1 = sqlite3_reset st0;
               st2 = sqlite3_clear_bindings st1;
               st3 = sqlite3_bind_int64 1 now st2;
               st4 = sqlite3_bind_text 2 topic st3;
               pl = payload_buffer malloc_ok payload payloadlen;
               st5 = sqlite3_bind_text 3
                       (case pl of Some b \<Rightarrow> Some b | None \<Rightarrow> Some [CHR 0x00]) st4;
               st6 = sqlite3_bind_int 4 qos st5;
               st7 = sqlite3_bind_int 5 retain st6;
               (rc, st8, fs) = sqlite3_step f_step st7 (files s);
               s1 = s\<lparr>g_stmt_insert := Some st8, files := fs\<rparr>
           in if rc \<noteq> SQLITE_DONE then emit [StderrStepFailed] s1 else s1))"

section \<open>MQTT callbacks\<close>

text \<open>\<open>sub_rc\<close> is what \<^verbatim>\<open>mosquitto_subscribe\<close> returns if it is called.\<close>

definition handle_connect :: "int \<Rightarrow> int \<Rightarrow> state \<Rightarrow> state" where
  "handle_connect rc sub_rc s =
     (let s1 = emit [LogConnected rc] s
      in if rc = 0 then
           (let s2 = emit [MosqSubscribe (g_topic s1) 0] s1
            in if sub_rc \<noteq> MOSQ_ERR_SUCCESS then emit [StderrSubscribeFailed sub_rc] s2
               else emit [StderrSubscribed (g_topic s2)] s2)
         else s1)"

definition handle_disconnect :: "int \<Rightarrow> time_t \<Rightarrow> int \<Rightarrow> state \<Rightarrow> state" where
  "handle_disconnect rc now sys_rc s =
     snd (run_network_repair_script now sys_rc (emit [LogDisconnected rc] s))"

definition handle_message ::
  "time_t \<Rightarrow> bool \<Rightarrow> fault \<Rightarrow> mosquitto_message option \<Rightarrow> state \<Rightarrow> state" where
  "handle_message now malloc_ok f_step msg s =
     (case msg of
        None \<Rightarrow> s
      | Some m \<Rightarrow>
          emit [StderrMsg (msg_topic m) (msg_payloadlen m) (msg_payload m)]
            (db_insert_message now malloc_ok f_step
               (msg_topic m) (msg_payload m) (msg_payloadlen m) (msg_qos m) (msg_retain m) s))"

definition on_signal :: "int \<Rightarrow> state \<Rightarrow> state" where
  "on_signal sig s =
     (let s1 = s\<lparr>g_should_stop := True\<rparr>
      in if g_mosq s1 \<noteq> None then emit [MosqDisconnect] s1 else s1)"

text \<open>The requests among the events: what the program asks of the mosquitto library.\<close>

fun is_mosq_request :: "event \<Rightarrow> bool" where
  "is_mosq_request (MosqSubscribe t q) = True"
| "is_mosq_request MosqLibInit = True"
| "is_mosq_request (MosqNew cid clean) = True"
| "is_mosq_request MosqCallbacksSet = True"
| "is_mosq_request (MosqReconnectDelaySet e lo hi) = True"
| "is_mosq_request (MosqConnect h p k) = True"
| "is_mosq_request MosqLoopForever = True"
| "is_mosq_request MosqDisconnect = True"
| "is_mosq_request MosqDestroy = True"
| "is_mosq_request MosqLibCleanup = True"
| "is_mosq_request _ = False"

section \<open>Process orchestrator\<close>

text \<open>
  \<^verbatim>\<open>mosquitto_loop_forever\<close> belongs to the library: while it runs it calls the three
  registered callbacks, and a signal may arrive between two of them. A run of the loop is
  the list of these calls in the order they happen, each with the values the callback
  reads from its collaborators while it runs.
\<close>

datatype loop_event =
    Connected int int
  | Disconnected int time_t int
  | Message "mosquitto_message option" time_t bool fault
  | Signal int

fun dispatch :: "loop_event \<Rightarrow> state \<Rightarrow> state" where
  "dispatch (Connected rc sub_rc) s = handle_connect rc sub_rc s"
| "dispatch (Disconnected rc now sys_rc) s = handle_disconnect rc now sys_rc s"
| "dispatch (Message msg now malloc_ok f_step) s = handle_message now malloc_ok f_step msg s"
| "dispatch (Signal sig) s = on_signal sig s"

fun run_callbacks :: "loop_event list \<Rightarrow> state \<Rightarrow> state" where
  "run_callbacks [] s = s"
| "run_callbacks (e # es) s = run_callbacks es (dispatch e s)"

definition mosquitto_loop_forever :: "loop_event list \<Rightarrow> state \<Rightarrow> state" where
  "mosquitto_loop_forever es s = run_callbacks es (emit [MosqLoopForever] s)"

text \<open>Everything \<^verbatim>\<open>main\<close> reads from outside: the environment variables, the process id
  as \<^verbatim>\<open>%ld\<close> prints it, the faults of the three library calls of \<^verbatim>\<open>db_init\<close>, whether
  \<^verbatim>\<open>mosquitto_new\<close> returns a session, the result of \<^verbatim>\<open>mosquitto_connect\<close>, the clock
  reading and the result of \<^verbatim>\<open>system\<close> for the repair after a failed connect, the run
  of the loop and its result.\<close>

record main_env =
  env_vars :: "string \<rightharpoonup> string"
  env_pid :: string
  env_f_open :: fault
  env_f_ddl :: fault
  env_f_prepare :: fault
  env_mosq_new_ok :: bool
  env_connect_rc :: int
  env_connect_now :: time_t
  env_connect_sys_rc :: int
  env_loop_events :: "loop_event list"
  env_loop_rc :: int

text \<open>The environment overrides that \<^verbatim>\<open>main\<close> reads first, each copied into its global
  with \<^verbatim>\<open>snprintf\<close> or converted by \<^verbatim>\<open>env_or_default_int\<close>.\<close>

definition load_config :: "(string \<rightharpoonup> string) \<Rightarrow> state \<Rightarrow> state" where
  "load_config vars s =
     s\<lparr>g_broker_host := snprintf 128 (env_or_default vars ''MQTT_BROKER'' ''192.168.4.1''),
       g_broker_port := env_or_default_int vars ''MQTT_PORT'' 1883,
       g_topic := snprintf 128 (env_or_default vars ''MQTT_TOPIC'' ''#''),
       g_db_path := snprintf 256 (env_or_default vars ''MQTT_DB_PATH'' ''./mqtt_messages.db''),
       g_netfix_script :=
         snprintf 256 (env_or_default vars ''NETWORK_FIX_SCRIPT'' ''./handle_network_error.sh''),
       g_reconnect_min := env_or_default_int vars ''RECONNECT_MIN_S'' 2,
       g_reconnect_max := env_or_default_int vars ''RECONNECT_MAX_S'' 60\<rparr>"

text \<open>The client identifier: \<^verbatim>\<open>MQTT_CLIENT_ID\<close> when it is set and not empty, else
  \<^verbatim>\<open>mqtt2sqlite-<pid>\<close> in a buffer of 64 bytes.\<close>

definition client_id :: "main_env \<Rightarrow> string" where
  "client_id env =
     (case env_vars env ''MQTT_CLIENT_ID'' of
        None \<Rightarrow> snprintf 64 (''mqtt2sqlite-'' @ env_pid env)
      | Some v \<Rightarrow> if v = [] then snprintf 64 (''mqtt2sqlite-'' @ env_pid env) else v)"

text \<open>\<open>main env fs\<close> is the exit code and the final state of a run that starts on the
  file system \<open>fs\<close>. \<^verbatim>\<open>install_sig_handlers\<close> registers \<^verbatim>\<open>on_signal\<close> and changes no global;
  a signal that is delivered is an event of the run of the loop.\<close>

definition main :: "main_env \<Rightarrow> (string \<rightharpoonup> database) \<Rightarrow> int \<times> state" where
  "main env fs =
     (let s1 = load_config (env_vars env) (initial_state fs);
          (r, s2) = db_init (env_f_open env) (env_f_ddl env) (env_f_prepare env) (g_db_path s1) s1
      in if r \<noteq> 0 then (1, emit [StderrInitFailed (g_db_path s2)] s2)
         else
           (let s3 = emit [MosqLibInit] s2;
                cid = client_id env;
                s4 = emit [MosqNew cid True] s3
            in if \<not> env_mosq_new_ok env then
                 (1, emit [MosqLibCleanup] (db_close (emit [StderrNewFailed] s4)))
               else
                 (let s5 = s4\<lparr>g_mosq := Some cid\<rparr>;
                      s6 = emit [MosqCallbacksSet,
                                 MosqReconnectDelaySet True (g_reconnect_min s5) (g_reconnect_max s5),
                                 MosqConnect (g_broker_host s5) (g_broker_port s5) 30] s5;
                      s7 = (if env_connect_rc env \<noteq> MOSQ_ERR_SUCCESS then
                              snd (run_network_repair_script
                                     (env_connect_now env) (env_connect_sys_rc env)
                                     (emit [StderrInitialConnectFailed (env_connect_rc env)] s6))
                            else s6);
                      s8 = mosquitto_loop_forever (env_loop_events env) s7;
                      s9 = (if env_loop_rc env \<noteq> MOSQ_ERR_SUCCESS
                            then emit [StderrLoopEnded (env_loop_rc env)] s8 else s8);
                      s10 = db_close (emit [MosqDestroy, MosqLibCleanup] s9)
                  in (0, s10))))"

section \<open>Notions for the properties\<close>

text \<open>Two consecutive calls of the repair trigger, at clock readings \<open>t1\<close> and \<open>t2\<close>.\<close>

definition two_triggers :: "time_t \<Rightarrow> int \<Rightarrow> time_t \<Rightarrow> int \<Rightarrow> state \<Rightarrow> state" where
  "two_triggers t1 rc1 t2 rc2 s =
     snd (run_network_repair_script t2 rc2 (snd (run_network_repair_script t1 rc1 s)))"

text \<open>A series of calls of the repair trigger, each with its clock reading and the
  result of \<^verbatim>\<open>system\<close>.\<close>

fun trigger_calls :: "(time_t \<times> int) list \<Rightarrow> state \<Rightarrow> state" where
  "trigger_calls [] s = s"
| "trigger_calls ((now, sys_rc) # cs) s =
     trigger_calls cs (snd (run_network_repair_script now sys_rc s))"

text \<open>The state in which \<^verbatim>\<open>main\<close> calls \<^verbatim>\<open>mosquitto_loop_forever\<close>, for a run in which
  storage was set up and the session object was created.\<close>

definition loop_entry :: "main_env \<Rightarrow> (string \<rightharpoonup> database) \<Rightarrow> state" where
  "loop_entry env fs =
     (let s1 = load_config (env_vars env) (initial_state fs);
          s2 = snd (db_init (env_f_open env) (env_f_ddl env) (env_f_prepare env)
                      (g_db_path s1) s1);
          s5 = (emit [MosqLibInit, MosqNew (client_id env) True] s2)
                 \<lparr>g_mosq := Some (client_id env)\<rparr>;
          s6 = emit [MosqCallbacksSet,
                     MosqReconnectDelaySet True (g_reconnect_min s5) (g_reconnect_max s5),
                     MosqConnect (g_broker_host s5) (g_broker_port s5) 30] s5
      in if env_connect_rc env \<noteq> MOSQ_ERR_SUCCESS then
           snd (run_network_repair_script (env_connect_now env) (env_connect_sys_rc env)
                  (emit [StderrInitialConnectFailed (env_connect_rc env)] s6))
         else s6)"

text \<open>The command line that \<^verbatim>\<open>run_network_repair_script\<close> builds in \<^verbatim>\<open>cmd\<close>.\<close>

definition repair_cmd :: "state \<Rightarrow> string" where
  "repair_cmd s = snprintf 512 (''sh -c '' @ [CHR 0x27] @ g_netfix_script s @ [CHR 0x27])"

text \<open>The events a step from \<open>s\<close> to \<open>s'\<close> has added to the trace.\<close>

definition new_events :: "state \<Rightarrow> state \<Rightarrow> event list" where
  "new_events s s' = drop (length (trace s)) (trace s')"

text \<open>The state \<^verbatim>\<open>db_init\<close> leaves when it returns 0: an open connection, the statement
  prepared on it with its five parameters, the database file in place.\<close>

definition store_ready :: "state \<Rightarrow> bool" where
  "store_ready s =
     (case g_db s of
        None \<Rightarrow> False
      | Some c \<Rightarrow>
          (case g_stmt_insert s of
             None \<Rightarrow> False
           | Some st \<Rightarrow>
               stmt_db st = conn_path c \<and> length (bindings st) = 5
               \<and> files s (conn_path c) \<noteq> None))"

text \<open>The records of the table behind the open connection.\<close>

definition stored_rows :: "state \<Rightarrow> row list" where
  "stored_rows s =
     (case g_db s of
        None \<Rightarrow> []
      | Some c \<Rightarrow> (case files s (conn_path c) of None \<Rightarrow> [] | Some db \<Rightarrow> rows db))"

definition next_id :: "state \<Rightarrow> nat" where
  "next_id s =
     (case g_db s of
        None \<Rightarrow> 0
      | Some c \<Rightarrow> (case files s (conn_path c) of None \<Rightarrow> 0 | Some db \<Rightarrow> Suc (seq db)))"

text \<open>The value bound to parameter \<open>i\<close> of the insert statement.\<close>

definition bound_param :: "nat \<Rightarrow> state \<Rightarrow> sql_value option" where
  "bound_param i s =
     (case g_stmt_insert s of
        None \<Rightarrow> None
      | Some st \<Rightarrow>
          if 1 \<le> i \<and> i \<le> length (bindings st) then Some (bindings st ! (i - 1)) else None)"

text \<open>The schema of the database file at \<open>path\<close>.\<close>

definition schema_at :: "string \<Rightarrow> state \<Rightarrow> sql_object list" where
  "schema_at path s = (case files s path of None \<Rightarrow> [] | Some db \<Rightarrow> objects db)"

text \<open>A DDL statement is satisfied by a schema that already has the object it would
  create.\<close>

fun satisfied :: "ddl_stmt \<Rightarrow> sql_object list \<Rightarrow> bool" where
  "satisfied (CreateTableIfNotExists n cols) os = list_ex (is_table_named n) os"
| "satisfied (CreateIndexIfNotExists n t c) os = list_ex (is_index_named n) os"

definition count_tables :: "string \<Rightarrow> sql_object list \<Rightarrow> nat" where
  "count_tables n os = length (filter (is_table_named n) os)"

definition count_indexes :: "string \<Rightarrow> sql_object list \<Rightarrow> nat" where
  "count_indexes n os = length (filter (is_index_named n) os)"

text \<open>The check of \<^verbatim>\<open>sqlite3_prepare_v2\<close> on a schema.\<close>

definition columns_present :: "sql_object list \<Rightarrow> bool" where
  "columns_present os =
     list_all (\<lambda>col. list_ex (has_column ''messages'' col) os) insert_columns"

text \<open>The SQL value that \<^verbatim>\<open>sqlite3_bind_text\<close> binds for a pointer.\<close>

definition text_value :: "char list option \<Rightarrow> sql_value" where
  "text_value p = (case p of None \<Rightarrow> SqlNull | Some bs \<Rightarrow> SqlText (c_str bs))"

text \<open>The text an insert call binds to the payload parameter: the C string in \<^verbatim>\<open>pl\<close>, or
  the empty string literal when \<^verbatim>\<open>pl\<close> is \<^verbatim>\<open>NULL\<close>.\<close>

definition payload_text :: "bool \<Rightarrow> char list option \<Rightarrow> int \<Rightarrow> string" where
  "payload_text malloc_ok payload payloadlen =
     c_str (case payload_buffer malloc_ok payload payloadlen of
              Some b \<Rightarrow> b | None \<Rightarrow> [CHR 0x00])"

text \<open>The five values an insert call binds, in the order of the parameters.\<close>

definition insert_values ::
  "time_t \<Rightarrow> bool \<Rightarrow> string option \<Rightarrow> char list option \<Rightarrow> int \<Rightarrow> int \<Rightarrow> int \<Rightarrow> sql_value list" where
  "insert_values now malloc_ok topic payload payloadlen qos retain =
     [SqlInteger now, text_value topic,
      SqlText (payload_text malloc_ok payload payloadlen),
      SqlInteger qos, SqlInteger retain]"

text \<open>When the step of an insert call fails on a statement that is ready: the engine
  meets a fault, or the topic pointer is \<^verbatim>\<open>NULL\<close> and the \<^verbatim>\<open>NOT NULL\<close> column refuses it.\<close>

definition step_fails :: "fault \<Rightarrow> string option \<Rightarrow> bool" where
  "step_fails f_step topic = (f_step \<noteq> NoFault \<or> topic = None)"

text \<open>The record a successful insert call adds, with the id the engine gives it.\<close>

definition inserted_row ::
  "nat \<Rightarrow> time_t \<Rightarrow> bool \<Rightarrow> string \<Rightarrow> char list option \<Rightarrow> int \<Rightarrow> int \<Rightarrow> int \<Rightarrow> row" where
  "inserted_row i now malloc_ok t payload payloadlen qos retain =
     \<lparr> col_id = i, col_ts = now, col_topic = c_str t,
       col_payload = payload_text malloc_ok payload payloadlen,
       col_qos = qos, col_retain = retain \<rparr>"

text \<open>The parts \<^verbatim>\<open>strtol\<close> sees in a value: whether a minus sign follows the leading white
  space, the digits it converts, what is left after them, and the number the sign and
  the digits denote.\<close>

definition subject :: "string \<Rightarrow> bool \<times> string" where
  "subject v = skip_sign (dropWhile isspace v)"

definition number_part :: "string \<Rightarrow> string" where
  "number_part v = takeWhile isdigit (snd (subject v))"

definition rest_part :: "string \<Rightarrow> string" where
  "rest_part v = dropWhile isdigit (snd (subject v))"

definition number_value :: "string \<Rightarrow> int" where
  "number_value v =
     (if fst (subject v) then - digits_value 0 (number_part v)
      else digits_value 0 (number_part v))"

section \<open>Properties of the repair trigger\<close>

lemma repair_throttled:
  "now - g_last_script_run s < 20 \<Longrightarrow>
     run_network_repair_script now sys_rc s = (0, emit [LogThrottled] s)"
  by (simp add: run_network_repair_script_def SCRIPT_MIN_INTERVAL_SEC_def)

lemma repair_runs_throttled:
  "now - g_last_script_run s < 20 \<Longrightarrow>
     repair_runs (snd (run_network_repair_script now sys_rc s)) = repair_runs s
     \<and> g_last_script_run (snd (run_network_repair_script now sys_rc s)) = g_last_script_run s"
  by (simp add: repair_throttled repair_runs_def emit_def)

lemma repair_runs_fired:
  "\<not> now - g_last_script_run s < 20 \<Longrightarrow>
     repair_runs (snd (run_network_repair_script now sys_rc s)) = repair_runs s + 1
     \<and> g_last_script_run (snd (run_network_repair_script now sys_rc s)) = now"
  by (simp add: run_network_repair_script_def SCRIPT_MIN_INTERVAL_SEC_def repair_runs_def
      emit_def Let_def)

lemma repair_trace_fired:
  "\<not> now - g_last_script_run s < 20 \<Longrightarrow>
     trace (snd (run_network_repair_script now sys_rc s)) =
       trace s @ [StderrRunning (repair_cmd s), System (repair_cmd s),
                  if sys_rc = - 1 then PerrorSystem else LogRepairExit (WEXITSTATUS sys_rc)]"
  by (simp add: run_network_repair_script_def SCRIPT_MIN_INTERVAL_SEC_def repair_cmd_def
      emit_def Let_def)

text \<open>Two calls less than the interval apart, in either order of their clock readings:
  whichever of them finds the interval elapsed, the other one does not.\<close>

lemma two_triggers_close:
  assumes close: "\<bar>t2 - t1\<bar> < 20"
  shows "repair_runs (two_triggers t1 rc1 t2 rc2 s) \<le> repair_runs s + 1"
proof (cases "t1 - g_last_script_run s < 20")
  case first_skipped: True
  show ?thesis
  proof (cases "t2 - g_last_script_run s < 20")
    case True
    with first_skipped show ?thesis
      by (simp add: two_triggers_def repair_throttled repair_runs_def emit_def)
  next
    case False
    with first_skipped
    have "\<not> t2 - g_last_script_run (snd (run_network_repair_script t1 rc1 s)) < 20"
      by (simp add: repair_runs_throttled)
    from repair_runs_fired [OF this] first_skipped show ?thesis
      by (simp add: two_triggers_def repair_runs_throttled)
  qed
next
  case False
  then have recorded: "g_last_script_run (snd (run_network_repair_script t1 rc1 s)) = t1"
    and once: "repair_runs (snd (run_network_repair_script t1 rc1 s)) = repair_runs s + 1"
    by (simp_all add: repair_runs_fired)
  from close recorded
  have "t2 - g_last_script_run (snd (run_network_repair_script t1 rc1 s)) < 20"
    by simp
  from repair_runs_throttled [OF this] once show ?thesis
    by (simp add: two_triggers_def)
qed

text \<open>Two calls at least the interval apart: the second one runs the command, the first
  one only if the interval had elapsed for it as well.\<close>

lemma two_triggers_far:
  assumes far: "20 \<le> t2 - t1" and behind: "g_last_script_run s \<le> t1"
  shows "repair_runs (two_triggers t1 rc1 t2 rc2 s) =
           repair_runs s + (if t1 - g_last_script_run s < 20 then 1 else 2)"
proof (cases "t1 - g_last_script_run s < 20")
  case True
  with far behind
  have "\<not> t2 - g_last_script_run (snd (run_network_repair_script t1 rc1 s)) < 20"
    by (simp add: repair_runs_throttled)
  from repair_runs_fired [OF this] True show ?thesis
    by (simp add: two_triggers_def repair_runs_throttled)
next
  case False
  then have recorded: "g_last_script_run (snd (run_network_repair_script t1 rc1 s)) = t1"
    and once: "repair_runs (snd (run_network_repair_script t1 rc1 s)) = repair_runs s + 1"
    by (simp_all add: repair_runs_fired)
  from far recorded
  have "\<not> t2 - g_last_script_run (snd (run_network_repair_script t1 rc1 s)) < 20"
    by simp
  from repair_runs_fired [OF this] once False show ?thesis
    by (simp add: two_triggers_def)
qed

text \<open>Calls whose clock readings all lie in one window shorter than the interval: once
  one of them has run the command, the recorded time lies in the window and the others
  are throttled.\<close>

lemma trigger_calls_after_run:
  "\<forall>c \<in> set cs. fst c - g_last_script_run s < 20 \<Longrightarrow>
     repair_runs (trigger_calls cs s) = repair_runs s"
proof (induction cs arbitrary: s)
  case Nil
  show ?case by simp
next
  case (Cons c cs)
  obtain now sys_rc where c: "c = (now, sys_rc)"
    by (cases c)
  from Cons.prems c have skipped: "now - g_last_script_run s < 20"
    by simp
  note same = repair_runs_throttled [OF skipped, of sys_rc]
  from Cons.prems same
  have "\<forall>c \<in> set cs.
          fst c - g_last_script_run (snd (run_network_repair_script now sys_rc s)) < 20"
    by simp
  from Cons.IH [OF this] same show ?case
    by (simp add: c)
qed

lemma trigger_calls_window:
  "\<forall>c \<in> set cs. lo \<le> fst c \<and> fst c < lo + 20 \<Longrightarrow>
     repair_runs (trigger_calls cs s) \<le> repair_runs s + 1"
proof (induction cs arbitrary: s)
  case Nil
  show ?case by simp
next
  case (Cons c cs)
  obtain now sys_rc where c: "c = (now, sys_rc)"
    by (cases c)
  from Cons.prems have rest: "\<forall>c \<in> set cs. lo \<le> fst c \<and> fst c < lo + 20"
    by simp
  show ?case
  proof (cases "now - g_last_script_run s < 20")
    case True
    from Cons.IH [OF rest, of "snd (run_network_repair_script now sys_rc s)"]
      repair_runs_throttled [OF True, of sys_rc]
    show ?thesis by (simp add: c)
  next
    case False
    note ran = repair_runs_fired [OF False, of sys_rc]
    from Cons.prems c have "lo \<le> now"
      by simp
    with rest ran
    have "\<forall>c \<in> set cs.
            fst c - g_last_script_run (snd (run_network_repair_script now sys_rc s)) < 20"
      by auto
    from trigger_calls_after_run [OF this] ran show ?thesis
      by (simp add: c)
  qed
qed

lemma two_triggers_calls:
  "two_triggers t1 rc1 t2 rc2 s = trigger_calls [(t1, rc1), (t2, rc2)] s"
  by (simp add: two_triggers_def)

text \<open>
  Claim C1, as the code has it. A call of \<^verbatim>\<open>run_network_repair_script\<close> at clock reading
  \<open>now\<close> that finds fewer than 20 seconds elapsed since the recorded time only writes the
  "throttled" line: no command is run and the recorded time stays. Any other call records
  \<open>now\<close> and runs \<^verbatim>\<open>sh -c '<script>'\<close> once, then reports how it ended. Of two
  consecutive calls less than 20 seconds apart at most one runs the command, and so does
  at most one of any series of calls whose clock readings lie in one window shorter than
  20 seconds. Of two consecutive calls at least 20 seconds apart, the recorded time not
  being ahead of the first, the second always runs the command; the first runs it exactly
  when the interval has elapsed for it too, so the command runs for each only then.
\<close>

theorem repair_trigger_throttle:
  "(now - g_last_script_run s < SCRIPT_MIN_INTERVAL_SEC \<longrightarrow>
      run_network_repair_script now sys_rc s = (0, emit [LogThrottled] s)
      \<and> repair_runs (snd (run_network_repair_script now sys_rc s)) = repair_runs s
      \<and> g_last_script_run (snd (run_network_repair_script now sys_rc s)) = g_last_script_run s)
   \<and> (\<not> now - g_last_script_run s < SCRIPT_MIN_INTERVAL_SEC \<longrightarrow>
      g_last_script_run (snd (run_network_repair_script now sys_rc s)) = now
      \<and> repair_runs (snd (run_network_repair_script now sys_rc s)) = repair_runs s + 1
      \<and> trace (snd (run_network_repair_script now sys_rc s)) =
          trace s @ [StderrRunning (repair_cmd s), System (repair_cmd s),
                     if sys_rc = - 1 then PerrorSystem else LogRepairExit (WEXITSTATUS sys_rc)])
   \<and> (\<bar>t2 - t1\<bar> < SCRIPT_MIN_INTERVAL_SEC \<longrightarrow>
      repair_runs (two_triggers t1 rc1 t2 rc2 s) \<le> repair_runs s + 1)
   \<and> ((\<forall>c \<in> set cs. lo \<le> fst c \<and> fst c < lo + SCRIPT_MIN_INTERVAL_SEC) \<longrightarrow>
      repair_runs (trigger_calls cs s) \<le> repair_runs s + 1)
   \<and> (SCRIPT_MIN_INTERVAL_SEC \<le> t2 - t1 \<and> g_last_script_run s \<le> t1 \<longrightarrow>
      repair_runs (two_triggers t1 rc1 t2 rc2 s) =
        repair_runs s + (if t1 - g_last_script_run s < SCRIPT_MIN_INTERVAL_SEC then 1 else 2))"
  unfolding SCRIPT_MIN_INTERVAL_SEC_def
proof (intro conjI impI)
  assume "\<forall>c \<in> set cs. lo \<le> fst c \<and> fst c < lo + 20"
  from trigger_calls_window [OF this]
  show "repair_runs (trigger_calls cs s) \<le> repair_runs s + 1" .
next
  assume "20 \<le> t2 - t1 \<and> g_last_script_run s \<le> t1"
  then show "repair_runs (two_triggers t1 rc1 t2 rc2 s) =
               repair_runs s + (if t1 - g_last_script_run s < 20 then 1 else 2)"
    using two_triggers_far by blast
next
  assume "\<bar>t2 - t1\<bar> < 20"
  from two_triggers_close [OF this]
  show "repair_runs (two_triggers t1 rc1 t2 rc2 s) \<le> repair_runs s + 1" .
qed (simp_all add: repair_throttled repair_runs_fired repair_trace_fired
       repair_runs_def emit_def)

theorem repair_trigger_throttle_witness:
  "run_network_repair_script 5 0 (initial_state Map.empty)
     = (0, emit [LogThrottled] (initial_state Map.empty))
   \<and> g_last_script_run (snd (run_network_repair_script 100 0 (initial_state Map.empty))) = 100
   \<and> repair_runs (snd (run_network_repair_script 100 0 (initial_state Map.empty))) = 1
   \<and> repair_runs (two_triggers 100 0 110 0 (initial_state Map.empty)) \<le> 1
   \<and> repair_runs (two_triggers 100 0 130 0 (initial_state Map.empty)) = 2
   \<and> repair_runs (trigger_calls [(100, 0), (105, 0), (119, 0)] (initial_state Map.empty)) \<le> 1"
  using repair_trigger_throttle
          [where now = 5 and s = "initial_state Map.empty" and sys_rc = 0
             and ?t1.0 = 100 and ?t2.0 = 110 and ?rc1.0 = 0 and ?rc2.0 = 0
             and cs = "[(100, 0), (105, 0), (119, 0)]" and lo = 100]
        repair_trigger_throttle
          [where now = 100 and s = "initial_state Map.empty" and sys_rc = 0
             and ?t1.0 = 100 and ?t2.0 = 130 and ?rc1.0 = 0 and ?rc2.0 = 0
             and cs = "[]" and lo = 0]
  by (simp add: SCRIPT_MIN_INTERVAL_SEC_def initial_state_def repair_runs_def)

text \<open>
  The claim as it was written says that the command runs for each of any two calls more
  than the interval apart. After a run at clock reading 100, the calls at 110 and at 140
  are 30 seconds apart, and the command runs for the second of them only.
\<close>

theorem repair_trigger_each_counterexample:
  "(140 :: int) - 110 > SCRIPT_MIN_INTERVAL_SEC
   \<and> repair_runs
        (two_triggers 110 0 140 0
           (snd (run_network_repair_script 100 0 (initial_state Map.empty))))
      = repair_runs (snd (run_network_repair_script 100 0 (initial_state Map.empty))) + 1
   \<and> repair_runs
        (two_triggers 110 0 140 0
           (snd (run_network_repair_script 100 0 (initial_state Map.empty))))
      \<noteq> repair_runs (snd (run_network_repair_script 100 0 (initial_state Map.empty))) + 2"
  by (simp add: two_triggers_def run_network_repair_script_def SCRIPT_MIN_INTERVAL_SEC_def
      repair_runs_def emit_def initial_state_def Let_def)

section \<open>Properties of the callbacks\<close>

text \<open>
  Claim C3. A connect event with result code 0 makes \<^verbatim>\<open>handle_connect\<close> log the
  connection, issue one \<^verbatim>\<open>mosquitto_subscribe\<close> for \<^verbatim>\<open>g_topic\<close> at QoS 0 and log how
  that went; a failed subscribe adds the failure line and nothing else. The subscribe is
  the only request made of the library, and nothing but the trace changes, so the session
  is neither disconnected nor destroyed. With any other result code the connection is
  logged and no request is made.
\<close>

theorem handle_connect_subscribes:
  "(rc = 0 \<longrightarrow>
      handle_connect rc sub_rc s =
        emit [LogConnected 0, MosqSubscribe (g_topic s) 0,
              if sub_rc \<noteq> MOSQ_ERR_SUCCESS then StderrSubscribeFailed sub_rc
              else StderrSubscribed (g_topic s)] s
      \<and> filter is_mosq_request (new_events s (handle_connect rc sub_rc s)) =
          [MosqSubscribe (g_topic s) 0])
   \<and> (rc \<noteq> 0 \<longrightarrow>
      handle_connect rc sub_rc s = emit [LogConnected rc] s
      \<and> filter is_mosq_request (new_events s (handle_connect rc sub_rc s)) = [])"
  by (simp add: handle_connect_def emit_def new_events_def Let_def)

theorem handle_connect_subscribes_witness:
  "filter is_mosq_request
     (new_events (initial_state Map.empty) (handle_connect 0 1 (initial_state Map.empty)))
     = [MosqSubscribe ''#'' 0]
   \<and> g_mosq (handle_connect 0 1 (initial_state Map.empty)) = g_mosq (initial_state Map.empty)
   \<and> filter is_mosq_request
        (new_events (initial_state Map.empty) (handle_connect 5 0 (initial_state Map.empty)))
     = []"
  using handle_connect_subscribes [of 0 1 "initial_state Map.empty"]
    handle_connect_subscribes [of 5 0 "initial_state Map.empty"]
  by (simp add: initial_state_def emit_def MOSQ_ERR_SUCCESS_def new_events_def)

text \<open>
  Claim C9. \<^verbatim>\<open>handle_message\<close> called with a \<^verbatim>\<open>NULL\<close> message returns at once: the state
  is the one it was given, so nothing was inserted. \<^verbatim>\<open>db_insert_message\<close> called while
  \<^verbatim>\<open>g_stmt_insert\<close> is \<^verbatim>\<open>NULL\<close> returns the state it was given as well: no statement
  operation, no change of the database files, no line written.
\<close>

theorem null_message_and_null_statement:
  "handle_message now malloc_ok f_step None s = s
   \<and> (g_stmt_insert s = None \<longrightarrow>
        db_insert_message now malloc_ok f_step topic payload payloadlen qos retain s = s)"
  by (simp add: handle_message_def db_insert_message_def)

theorem null_message_and_null_statement_witness:
  "handle_message 1700000000 True NoFault None (initial_state Map.empty)
     = initial_state Map.empty
   \<and> db_insert_message 1700000000 True NoFault (Some ''obk/state'') (Some ''on'') 2 0 0
        (initial_state Map.empty)
     = initial_state Map.empty"
  using null_message_and_null_statement
          [of 1700000000 True NoFault "initial_state Map.empty" "Some ''obk/state''"
              "Some ''on''" 2 0 0]
  by (simp add: initial_state_def)

section \<open>Properties of the run loop and of \<^verbatim>\<open>main\<close>\<close>

lemma run_callbacks_append:
  "run_callbacks (es1 @ es2) s = run_callbacks es2 (run_callbacks es1 s)"
  by (induction es1 arbitrary: s) simp_all

lemma trace_emit: "trace (emit es s) = trace s @ es"
  by (simp add: emit_def)

lemma repair_events:
  "trace (snd (run_network_repair_script now sys_rc s)) =
     trace s @
       (if now - g_last_script_run s < SCRIPT_MIN_INTERVAL_SEC then [LogThrottled]
        else [StderrRunning (repair_cmd s), System (repair_cmd s),
              if sys_rc = - 1 then PerrorSystem else LogRepairExit (WEXITSTATUS sys_rc)])"
  by (simp add: run_network_repair_script_def repair_cmd_def emit_def Let_def)

lemma handle_disconnect_trace:
  "trace (handle_disconnect rc now sys_rc s) =
     trace s @ LogDisconnected rc #
       (if now - g_last_script_run s < SCRIPT_MIN_INTERVAL_SEC then [LogThrottled]
        else [StderrRunning (repair_cmd s), System (repair_cmd s),
              if sys_rc = - 1 then PerrorSystem else LogRepairExit (WEXITSTATUS sys_rc)])"
  by (simp add: handle_disconnect_def repair_events) (simp add: emit_def repair_cmd_def)

text \<open>No callback and no library call of the model takes anything back from the trace.\<close>

lemma trace_db_insert_message:
  "\<exists>es. trace (db_insert_message now malloc_ok f_step topic payload payloadlen qos retain s)
           = trace s @ es"
  by (simp add: db_insert_message_def emit_def Let_def split: option.splits prod.splits)

lemma trace_dispatch: "\<exists>es. trace (dispatch e s) = trace s @ es"
proof (cases e)
  case (Connected rc sub_rc)
  then show ?thesis by (simp add: handle_connect_def emit_def Let_def)
next
  case (Disconnected rc now sys_rc)
  then show ?thesis by (simp add: handle_disconnect_trace)
next
  case (Message msg now malloc_ok f_step)
  show ?thesis
  proof (cases msg)
    case None
    with Message show ?thesis by (simp add: handle_message_def)
  next
    case (Some m)
    from trace_db_insert_message
    obtain es where
      "trace (db_insert_message now malloc_ok f_step (msg_topic m) (msg_payload m)
                (msg_payloadlen m) (msg_qos m) (msg_retain m) s) = trace s @ es"
      by blast
    with Message Some show ?thesis by (simp add: handle_message_def emit_def)
  qed
next
  case (Signal sig)
  then show ?thesis by (simp add: on_signal_def emit_def Let_def)
qed

lemma trace_run_callbacks: "\<exists>post. trace (run_callbacks es s) = trace s @ post"
proof (induction es arbitrary: s)
  case Nil
  show ?case by simp
next
  case (Cons e es)
  from trace_dispatch obtain a where a: "trace (dispatch e s) = trace s @ a"
    by blast
  from Cons.IH obtain b where
    "trace (run_callbacks es (dispatch e s)) = trace (dispatch e s) @ b"
    by blast
  with a show ?case by simp
qed

lemma trace_db_close: "trace (db_close s) = trace s"
  by (simp add: db_close_def Let_def)

text \<open>A successful \<^verbatim>\<open>db_init\<close> writes nothing and leaves the configuration alone.\<close>

lemma db_init_ok_frame:
  assumes "db_init f1 f2 f3 path s = (0, s')"
  shows "trace s' = trace s" and "g_last_script_run s' = g_last_script_run s"
    and "g_netfix_script s' = g_netfix_script s" and "g_reconnect_min s' = g_reconnect_min s"
    and "g_reconnect_max s' = g_reconnect_max s" and "g_broker_host s' = g_broker_host s"
    and "g_broker_port s' = g_broker_port s"
  using assms
  by (auto simp: db_init_def Let_def emit_def split: prod.splits option.splits if_splits)

text \<open>A run whose first connect fails: storage is set up, the session object exists, and
  \<^verbatim>\<open>mosquitto_connect\<close> returns an error.\<close>

lemma main_failed_connect:
  assumes init: "fst (db_init (env_f_open env) (env_f_ddl env) (env_f_prepare env)
                   (g_db_path (load_config (env_vars env) (initial_state fs)))
                   (load_config (env_vars env) (initial_state fs))) = 0"
    and new: "env_mosq_new_ok env"
    and failed: "env_connect_rc env \<noteq> MOSQ_ERR_SUCCESS"
  shows "fst (main env fs) = 0
     \<and> (\<exists>post. trace (snd (main env fs)) =
          [MosqLibInit, MosqNew (client_id env) True, MosqCallbacksSet,
           MosqReconnectDelaySet True
             (g_reconnect_min (load_config (env_vars env) (initial_state fs)))
             (g_reconnect_max (load_config (env_vars env) (initial_state fs))),
           MosqConnect (g_broker_host (load_config (env_vars env) (initial_state fs)))
             (g_broker_port (load_config (env_vars env) (initial_state fs))) 30,
           StderrInitialConnectFailed (env_connect_rc env)]
          @ (if env_connect_now env < SCRIPT_MIN_INTERVAL_SEC then [LogThrottled]
             else [StderrRunning (repair_cmd (load_config (env_vars env) (initial_state fs))),
                   System (repair_cmd (load_config (env_vars env) (initial_state fs))),
                   if env_connect_sys_rc env = - 1 then PerrorSystem
                   else LogRepairExit (WEXITSTATUS (env_connect_sys_rc env))])
          @ MosqLoopForever # post)"
proof -
  define cfg where "cfg = load_config (env_vars env) (initial_state fs)"
  obtain r s2 where d: "db_init (env_f_open env) (env_f_ddl env) (env_f_prepare env)
                          (g_db_path cfg) cfg = (r, s2)"
    by (cases "db_init (env_f_open env) (env_f_ddl env) (env_f_prepare env)
                 (g_db_path cfg) cfg")
  with init have r: "r = 0"
    by (simp add: cfg_def)
  note fr = db_init_ok_frame [OF d [unfolded r]]
  have cfg0: "trace cfg = []" "g_last_script_run cfg = 0"
    by (simp_all add: cfg_def load_config_def initial_state_def)
  define s6 where "s6 = emit [StderrInitialConnectFailed (env_connect_rc env)]
     (emit [MosqCallbacksSet,
            MosqReconnectDelaySet True (g_reconnect_min cfg) (g_reconnect_max cfg),
            MosqConnect (g_broker_host cfg) (g_broker_port cfg) 30]
        ((emit [MosqNew (client_id env) True] (emit [MosqLibInit] s2))
           \<lparr>g_mosq := Some (client_id env)\<rparr>))"
  define s7 where
    "s7 = snd (run_network_repair_script (env_connect_now env) (env_connect_sys_rc env) s6)"
  have s6: "trace s6 = [MosqLibInit, MosqNew (client_id env) True, MosqCallbacksSet,
           MosqReconnectDelaySet True (g_reconnect_min cfg) (g_reconnect_max cfg),
           MosqConnect (g_broker_host cfg) (g_broker_port cfg) 30,
           StderrInitialConnectFailed (env_connect_rc env)]"
    and l6: "g_last_script_run s6 = 0" and c6: "repair_cmd s6 = repair_cmd cfg"
    by (simp_all add: s6_def emit_def fr cfg0 repair_cmd_def)
  have m: "main env fs =
     (0, db_close (emit [MosqDestroy, MosqLibCleanup]
        (let s8 = mosquitto_loop_forever (env_loop_events env) s7
         in if env_loop_rc env \<noteq> MOSQ_ERR_SUCCESS
            then emit [StderrLoopEnded (env_loop_rc env)] s8 else s8)))"
    using d r new failed
    by (simp add: main_def Let_def cfg_def [symmetric] s6_def s7_def emit_def fr)
  from trace_run_callbacks [of "env_loop_events env" "emit [MosqLoopForever] s7"]
  obtain p where p: "trace (mosquitto_loop_forever (env_loop_events env) s7)
                       = trace s7 @ MosqLoopForever # p"
    by (auto simp: mosquitto_loop_forever_def emit_def)
  have "\<exists>post. trace (snd (main env fs)) = trace s7 @ MosqLoopForever # post"
    by (simp add: m trace_db_close trace_emit Let_def p)
  then obtain post where post: "trace (snd (main env fs)) = trace s7 @ MosqLoopForever # post"
    by blast
  have t7: "trace s7 = trace s6 @
        (if env_connect_now env < SCRIPT_MIN_INTERVAL_SEC then [LogThrottled]
         else [StderrRunning (repair_cmd cfg), System (repair_cmd cfg),
               if env_connect_sys_rc env = - 1 then PerrorSystem
               else LogRepairExit (WEXITSTATUS (env_connect_sys_rc env))])"
    unfolding s7_def repair_events by (simp add: l6 c6)
  have exit0: "fst (main env fs) = 0"
    by (simp add: m)
  show ?thesis
    unfolding cfg_def [symmetric]
    by (simp add: exit0 post t7 s6)
qed

text \<open>
  Claim C7. \<^verbatim>\<open>handle_disconnect\<close> returns the state that the repair trigger returns: it
  logs the disconnect and then either finds the trigger throttled or runs the repair
  command, all before it returns. In a run of the loop each disconnect event is handled
  in this way before any later event. When the first \<^verbatim>\<open>mosquitto_connect\<close> of \<^verbatim>\<open>main\<close> fails (storage
  set up, session object created), the failure is logged, the repair trigger is called
  once (throttled only while the clock reads less than 20, the recorded time being 0),
  \<^verbatim>\<open>mosquitto_loop_forever\<close> is entered after it, and the process ends with exit code 0
  when the loop returns.
\<close>

theorem disconnect_and_failed_connect_repair:
  "handle_disconnect rc now sys_rc s
     = snd (run_network_repair_script now sys_rc (emit [LogDisconnected rc] s))
   \<and> trace (handle_disconnect rc now sys_rc s) =
       trace s @ LogDisconnected rc #
         (if now - g_last_script_run s < SCRIPT_MIN_INTERVAL_SEC then [LogThrottled]
          else [StderrRunning (repair_cmd s), System (repair_cmd s),
                if sys_rc = - 1 then PerrorSystem else LogRepairExit (WEXITSTATUS sys_rc)])
   \<and> run_callbacks (es1 @ Disconnected rc now sys_rc # es2) s
       = run_callbacks es2
           (snd (run_network_repair_script now sys_rc
                   (emit [LogDisconnected rc] (run_callbacks es1 s))))
   \<and> (fst (db_init (env_f_open env) (env_f_ddl env) (env_f_prepare env)
             (g_db_path (load_config (env_vars env) (initial_state fs)))
             (load_config (env_vars env) (initial_state fs))) = 0
       \<and> env_mosq_new_ok env \<and> env_connect_rc env \<noteq> MOSQ_ERR_SUCCESS \<longrightarrow>
       fst (main env fs) = 0
       \<and> (\<exists>post. trace (snd (main env fs)) =
            [MosqLibInit, MosqNew (client_id env) True, MosqCallbacksSet,
             MosqReconnectDelaySet True
               (g_reconnect_min (load_config (env_vars env) (initial_state fs)))
               (g_reconnect_max (load_config (env_vars env) (initial_state fs))),
             MosqConnect (g_broker_host (load_config (env_vars env) (initial_state fs)))
               (g_broker_port (load_config (env_vars env) (initial_state fs))) 30,
             StderrInitialConnectFailed (env_connect_rc env)]
            @ (if env_connect_now env < SCRIPT_MIN_INTERVAL_SEC then [LogThrottled]
               else [StderrRunning (repair_cmd (load_config (env_vars env) (initial_state fs))),
                     System (repair_cmd (load_config (env_vars env) (initial_state fs))),
                     if env_connect_sys_rc env = - 1 then PerrorSystem
                     else LogRepairExit (WEXITSTATUS (env_connect_sys_rc env))])
            @ MosqLoopForever # post))"
proof -
  have handler: "handle_disconnect rc now sys_rc s
          = snd (run_network_repair_script now sys_rc (emit [LogDisconnected rc] s))"
    by (simp add: handle_disconnect_def)
  have in_loop: "run_callbacks (es1 @ Disconnected rc now sys_rc # es2) s
          = run_callbacks es2
              (snd (run_network_repair_script now sys_rc
                      (emit [LogDisconnected rc] (run_callbacks es1 s))))"
    by (simp add: run_callbacks_append handle_disconnect_def)
  note first_connect = main_failed_connect [of env fs]
  show ?thesis
    apply (rule conjI [OF handler])
    apply (rule conjI [OF handle_disconnect_trace])
    apply (rule conjI [OF in_loop])
    apply (rule impI)
    apply (rule first_connect)
      apply (erule conjunct1)
     apply (erule conjunct2 [THEN conjunct1])
    apply (erule conjunct2 [THEN conjunct2])
    done
qed

theorem disconnect_and_failed_connect_repair_witness:
  "fst (main \<lparr> env_vars = Map.empty, env_pid = ''4711'', env_f_open = NoFault,
               env_f_ddl = NoFault, env_f_prepare = NoFault, env_mosq_new_ok = True,
               env_connect_rc = 14, env_connect_now = 1700000000, env_connect_sys_rc = 0,
               env_loop_events = [], env_loop_rc = 0 \<rparr> Map.empty) = 0
   \<and> (\<exists>post. trace (snd (main \<lparr> env_vars = Map.empty, env_pid = ''4711'', env_f_open = NoFault,
               env_f_ddl = NoFault, env_f_prepare = NoFault, env_mosq_new_ok = True,
               env_connect_rc = 14, env_connect_now = 1700000000, env_connect_sys_rc = 0,
               env_loop_events = [], env_loop_rc = 0 \<rparr> Map.empty)) =
         [MosqLibInit, MosqNew ''mqtt2sqlite-4711'' True, MosqCallbacksSet,
          MosqReconnectDelaySet True 2 60, MosqConnect ''192.168.4.1'' 1883 30,
          StderrInitialConnectFailed 14,
          StderrRunning (''sh -c '' @ [CHR 0x27] @ ''./handle_network_error.sh'' @ [CHR 0x27]),
          System (''sh -c '' @ [CHR 0x27] @ ''./handle_network_error.sh'' @ [CHR 0x27]),
          LogRepairExit 0, MosqLoopForever] @ post)"
  using disconnect_and_failed_connect_repair
          [where env = "\<lparr> env_vars = Map.empty, env_pid = ''4711'', env_f_open = NoFault,
               env_f_ddl = NoFault, env_f_prepare = NoFault, env_mosq_new_ok = True,
               env_connect_rc = 14, env_connect_now = 1700000000, env_connect_sys_rc = 0,
               env_loop_events = [], env_loop_rc = 0 \<rparr>" and fs = Map.empty]
  by (simp add: db_init_def sqlite3_open_def sqlite3_exec_def sqlite3_prepare_v2_def Let_def
      ddl_def insert_columns_def load_config_def initial_state_def empty_database_def
      SQLITE_OK_def SQLITE_ERROR_def env_or_default_def env_or_default_int_def snprintf_def
      MOSQ_ERR_SUCCESS_def SCRIPT_MIN_INTERVAL_SEC_def client_id_def repair_cmd_def
      WEXITSTATUS_def)

section \<open>Properties of storage initialisation\<close>

lemma exec_ddl_stmt_satisfied:
  "exec_ddl_stmt d os = Some os' \<Longrightarrow> satisfied d os'"
  by (cases d) (auto simp: list_ex_iff split: if_splits)

lemma exec_ddl_stmt_noop:
  "satisfied d os \<Longrightarrow> exec_ddl_stmt d os = Some os"
  by (cases d) simp_all

lemma exec_ddl_stmt_extends:
  "exec_ddl_stmt d os = Some os' \<Longrightarrow> set os \<subseteq> set os'"
  by (cases d) (auto split: if_splits)

lemma satisfied_mono:
  "satisfied d os \<Longrightarrow> set os \<subseteq> set os' \<Longrightarrow> satisfied d os'"
  by (cases d) (auto simp: list_ex_iff)

lemma exec_script_extends:
  "exec_script ds os = (SQLITE_OK, os') \<Longrightarrow> set os \<subseteq> set os'"
proof (induction ds arbitrary: os)
  case Nil
  then show ?case by simp
next
  case (Cons d ds)
  show ?case
  proof (cases "exec_ddl_stmt d os")
    case None
    with Cons.prems show ?thesis
      by (simp add: SQLITE_OK_def SQLITE_ERROR_def)
  next
    case (Some os1)
    with Cons.prems have "exec_script ds os1 = (SQLITE_OK, os')"
      by simp
    from Cons.IH [OF this] exec_ddl_stmt_extends [OF Some] show ?thesis
      by blast
  qed
qed

text \<open>A script that has run is satisfied, statement by statement, by the schema it
  leaves; a script that is satisfied runs without error and without effect.\<close>

lemma exec_script_satisfied:
  "exec_script ds os = (SQLITE_OK, os') \<Longrightarrow> \<forall>d \<in> set ds. satisfied d os'"
proof (induction ds arbitrary: os)
  case Nil
  then show ?case by simp
next
  case (Cons d ds)
  show ?case
  proof (cases "exec_ddl_stmt d os")
    case None
    with Cons.prems show ?thesis
      by (simp add: SQLITE_OK_def SQLITE_ERROR_def)
  next
    case (Some os1)
    with Cons.prems have rest: "exec_script ds os1 = (SQLITE_OK, os')"
      by simp
    from exec_ddl_stmt_satisfied [OF Some] exec_script_extends [OF rest]
    have "satisfied d os'"
      by (rule satisfied_mono)
    with Cons.IH [OF rest] show ?thesis
      by simp
  qed
qed

lemma exec_script_noop:
  "\<forall>d \<in> set ds. satisfied d os \<Longrightarrow> exec_script ds os = (SQLITE_OK, os)"
  by (induction ds) (simp_all add: exec_ddl_stmt_noop)

lemma exec_script_idem:
  "exec_script ds os = (SQLITE_OK, os') \<Longrightarrow> exec_script ds os' = (SQLITE_OK, os')"
  by (rule exec_script_noop) (rule exec_script_satisfied)

lemma ddl_fresh:
  "exec_script ddl [] =
     (SQLITE_OK,
      [Table ''messages'' [''id'', ''ts'', ''topic'', ''payload'', ''qos'', ''retain''],
       Index ''idx_messages_ts'' ''messages'' ''ts'',
       Index ''idx_messages_topic'' ''messages'' ''topic''])"
  by (simp add: ddl_def)

subsection \<open>No object is created twice\<close>

lemma filter_none: "\<not> list_ex P xs \<Longrightarrow> filter P xs = []"
  by (induction xs) auto

lemma count_tables_pos: "list_ex (is_table_named n) os \<Longrightarrow> 1 \<le> count_tables n os"
  unfolding count_tables_def by (induction os) auto

lemma count_indexes_pos: "list_ex (is_index_named n) os \<Longrightarrow> 1 \<le> count_indexes n os"
  unfolding count_indexes_def by (induction os) auto

lemma exec_ddl_stmt_count_tables:
  "exec_ddl_stmt d os = Some os' \<Longrightarrow> count_tables n os \<le> 1 \<Longrightarrow> count_tables n os' \<le> 1"
  by (cases d) (auto simp: count_tables_def filter_none split: if_splits)

lemma exec_ddl_stmt_count_indexes:
  "exec_ddl_stmt d os = Some os' \<Longrightarrow> count_indexes n os \<le> 1 \<Longrightarrow> count_indexes n os' \<le> 1"
  by (cases d) (auto simp: count_indexes_def filter_none split: if_splits)

lemma exec_script_counts:
  "exec_script ds os = (SQLITE_OK, os') \<Longrightarrow>
     (count_tables n os \<le> 1 \<longrightarrow> count_tables n os' \<le> 1)
     \<and> (count_indexes n os \<le> 1 \<longrightarrow> count_indexes n os' \<le> 1)"
proof (induction ds arbitrary: os)
  case Nil
  then show ?case by simp
next
  case (Cons d ds)
  show ?case
  proof (cases "exec_ddl_stmt d os")
    case None
    with Cons.prems show ?thesis
      by (simp add: SQLITE_OK_def SQLITE_ERROR_def)
  next
    case (Some os1)
    with Cons.prems have "exec_script ds os1 = (SQLITE_OK, os')"
      by simp
    from Cons.IH [OF this] exec_ddl_stmt_count_tables [OF Some]
      exec_ddl_stmt_count_indexes [OF Some]
    show ?thesis by blast
  qed
qed

lemma ddl_counts:
  assumes run: "exec_script ddl os = (SQLITE_OK, os')"
    and t: "count_tables ''messages'' os \<le> 1"
    and i1: "count_indexes ''idx_messages_ts'' os \<le> 1"
    and i2: "count_indexes ''idx_messages_topic'' os \<le> 1"
  shows "count_tables ''messages'' os' = 1 \<and> count_indexes ''idx_messages_ts'' os' = 1
     \<and> count_indexes ''idx_messages_topic'' os' = 1"
proof -
  from exec_script_satisfied [OF run]
  have "list_ex (is_table_named ''messages'') os'"
    and "list_ex (is_index_named ''idx_messages_ts'') os'"
    and "list_ex (is_index_named ''idx_messages_topic'') os'"
    by (simp_all add: ddl_def)
  then have "1 \<le> count_tables ''messages'' os'"
    and "1 \<le> count_indexes ''idx_messages_ts'' os'"
    and "1 \<le> count_indexes ''idx_messages_topic'' os'"
    by (blast intro: count_tables_pos count_indexes_pos)+
  with exec_script_counts [OF run, of "''messages''"]
    exec_script_counts [OF run, of "''idx_messages_ts''"]
    exec_script_counts [OF run, of "''idx_messages_topic''"] t i1 i2
  show ?thesis by simp
qed

subsection \<open>\<^verbatim>\<open>db_init\<close>, run by run\<close>

lemma fault_code_zero: "fault_code f = 0 \<longleftrightarrow> f = NoFault"
  by (cases f) simp_all

lemma db_init_open_fault:
  "f1 \<noteq> NoFault \<Longrightarrow> fst (db_init f1 f2 f3 path s) = - 1"
  by (simp add: db_init_def sqlite3_open_def Let_def)

lemma db_init_ddl_fault:
  "f2 \<noteq> NoFault \<Longrightarrow> fst (db_init f1 f2 f3 path s) = - 1"
  by (cases "f1 = NoFault")
     (simp_all add: db_init_def sqlite3_open_def sqlite3_exec_def SQLITE_OK_def
        fault_code_zero split_beta)

lemma db_init_prepare_fault:
  "f3 \<noteq> NoFault \<Longrightarrow> fst (db_init f1 f2 f3 path s) = - 1"
  by (cases "f1 = NoFault")
     (simp_all add: db_init_def sqlite3_open_def sqlite3_prepare_v2_def SQLITE_OK_def
        fault_code_zero split_beta Let_def)

lemma db_init_ok_nofault:
  "fst (db_init f1 f2 f3 path s) = 0 \<Longrightarrow> f1 = NoFault \<and> f2 = NoFault \<and> f3 = NoFault"
  using db_init_open_fault [of f1 f2 f3 path s] db_init_ddl_fault [of f2 f1 f3 path s]
    db_init_prepare_fault [of f3 f1 f2 path s]
  by auto

text \<open>What \<^verbatim>\<open>db_init\<close> does when the library meets no fault.\<close>

lemma db_init_nofault:
  "db_init NoFault NoFault NoFault path s =
     (let db0 = (case files s path of None \<Rightarrow> empty_database | Some db \<Rightarrow> db);
          c = \<lparr> conn_path = path, synchronous = ''NORMAL'', temp_store = ''MEMORY'' \<rparr>;
          (rc, os) = exec_script ddl (objects db0);
          s2 = s\<lparr>g_db := Some c,
                 files := (files s)(path \<mapsto> db0\<lparr>journal_mode := ''wal'', objects := os\<rparr>)\<rparr>
      in if rc \<noteq> SQLITE_OK then (- 1, emit [StderrDdlFailed] s2)
         else if columns_present os
         then (0, s2\<lparr>g_stmt_insert :=
                       Some \<lparr> stmt_db = path, bindings = replicate 5 SqlNull,
                              stmt_state = Ready \<rparr>\<rparr>)
         else (- 1, emit [StderrPrepareFailed] (s2\<lparr>g_stmt_insert := None\<rparr>)))"
proof (cases "files s path")
  case None
  then show ?thesis
    by (simp add: db_init_def sqlite3_open_def sqlite3_exec_def sqlite3_prepare_v2_def
        Let_def split_beta SQLITE_OK_def SQLITE_ERROR_def columns_present_def)
next
  case (Some db)
  then show ?thesis
    by (simp add: db_init_def sqlite3_open_def sqlite3_exec_def sqlite3_prepare_v2_def
        Let_def split_beta SQLITE_OK_def SQLITE_ERROR_def columns_present_def)
qed

lemma db_init_first:
  assumes ok: "fst (db_init f1 f2 f3 path s) = 0"
  shows "\<exists>db. files (snd (db_init f1 f2 f3 path s)) path = Some db
     \<and> exec_script ddl (schema_at path s) = (SQLITE_OK, objects db)
     \<and> columns_present (objects db)"
proof -
  from db_init_ok_nofault [OF ok] have nf: "f1 = NoFault" "f2 = NoFault" "f3 = NoFault"
    by simp_all
  show ?thesis
    using ok unfolding nf db_init_nofault schema_at_def
    by (cases "files s path")
       (auto simp: Let_def split_beta empty_database_def SQLITE_OK_def prod_eq_iff
          split: if_splits)
qed

lemma db_init_second:
  assumes present: "files s path = Some db"
    and settled: "exec_script ddl (objects db) = (SQLITE_OK, objects db)"
    and cols: "columns_present (objects db)"
  shows "fst (db_init NoFault NoFault NoFault path s) = 0"
    and "files (snd (db_init NoFault NoFault NoFault path s)) path
           = Some (db\<lparr>journal_mode := ''wal''\<rparr>)"
    and "store_ready (snd (db_init NoFault NoFault NoFault path s))"
  using assms
  by (simp_all add: db_init_nofault Let_def store_ready_def)

lemma db_init_fresh:
  assumes "files s path = None"
  shows "fst (db_init NoFault NoFault NoFault path s) = 0"
    and "schema_at path (snd (db_init NoFault NoFault NoFault path s)) =
      [Table ''messages'' [''id'', ''ts'', ''topic'', ''payload'', ''qos'', ''retain''],
       Index ''idx_messages_ts'' ''messages'' ''ts'',
       Index ''idx_messages_topic'' ''messages'' ''topic'']"
  using assms
  by (simp_all add: db_init_nofault Let_def ddl_fresh empty_database_def columns_present_def
      insert_columns_def schema_at_def SQLITE_OK_def)

lemma db_init_again:
  assumes first: "fst (db_init f1 f2 f3 path s) = 0"
    and same: "files s' = files (snd (db_init f1 f2 f3 path s))"
  shows "fst (db_init NoFault NoFault NoFault path s') = 0"
    and "schema_at path (snd (db_init NoFault NoFault NoFault path s'))
           = schema_at path (snd (db_init f1 f2 f3 path s))"
    and "store_ready (snd (db_init NoFault NoFault NoFault path s'))"
    and "count_tables ''messages'' (schema_at path s) \<le> 1
         \<and> count_indexes ''idx_messages_ts'' (schema_at path s) \<le> 1
         \<and> count_indexes ''idx_messages_topic'' (schema_at path s) \<le> 1
         \<longrightarrow> count_tables ''messages''
               (schema_at path (snd (db_init NoFault NoFault NoFault path s'))) = 1
           \<and> count_indexes ''idx_messages_ts''
               (schema_at path (snd (db_init NoFault NoFault NoFault path s'))) = 1
           \<and> count_indexes ''idx_messages_topic''
               (schema_at path (snd (db_init NoFault NoFault NoFault path s'))) = 1"
proof -
  from db_init_first [OF first] obtain db where
    db: "files (snd (db_init f1 f2 f3 path s)) path = Some db"
    and run: "exec_script ddl (schema_at path s) = (SQLITE_OK, objects db)"
    and cols: "columns_present (objects db)"
    by auto
  from db same have present: "files s' path = Some db"
    by simp
  note second = db_init_second [OF present exec_script_idem [OF run] cols]
  show "fst (db_init NoFault NoFault NoFault path s') = 0"
    by (rule second)
  show "store_ready (snd (db_init NoFault NoFault NoFault path s'))"
    by (rule second)
  have after: "schema_at path (snd (db_init NoFault NoFault NoFault path s')) = objects db"
    by (simp add: schema_at_def second)
  show "schema_at path (snd (db_init NoFault NoFault NoFault path s'))
           = schema_at path (snd (db_init f1 f2 f3 path s))"
    by (simp add: after) (simp add: schema_at_def db)
  show "count_tables ''messages'' (schema_at path s) \<le> 1
         \<and> count_indexes ''idx_messages_ts'' (schema_at path s) \<le> 1
         \<and> count_indexes ''idx_messages_topic'' (schema_at path s) \<le> 1
         \<longrightarrow> count_tables ''messages''
               (schema_at path (snd (db_init NoFault NoFault NoFault path s'))) = 1
           \<and> count_indexes ''idx_messages_ts''
               (schema_at path (snd (db_init NoFault NoFault NoFault path s'))) = 1
           \<and> count_indexes ''idx_messages_topic''
               (schema_at path (snd (db_init NoFault NoFault NoFault path s'))) = 1"
    using ddl_counts [OF run] unfolding after by blast
qed

text \<open>
  Claim C8. On a path where no database file exists yet, \<^verbatim>\<open>db_init\<close> returns 0 (the
  library meeting no fault) and leaves the table \<^verbatim>\<open>messages\<close> and the two indexes.
  Whenever a first run on a path has returned 0, a second run on the files it left (in
  the same process or after a restart, the library meeting no fault) returns 0 again,
  leaves the schema as the first run left it and the statement prepared; and if the file
  the first run found had no table or index of these names twice, the schema after the
  second run has exactly one table \<^verbatim>\<open>messages\<close>, one index \<^verbatim>\<open>idx_messages_ts\<close> and
  one index \<^verbatim>\<open>idx_messages_topic\<close>.
\<close>

theorem db_init_twice:
  "(files s path = None \<longrightarrow>
      fst (db_init NoFault NoFault NoFault path s) = 0
      \<and> schema_at path (snd (db_init NoFault NoFault NoFault path s)) =
          [Table ''messages'' [''id'', ''ts'', ''topic'', ''payload'', ''qos'', ''retain''],
           Index ''idx_messages_ts'' ''messages'' ''ts'',
           Index ''idx_messages_topic'' ''messages'' ''topic''])
   \<and> (fst (db_init f1 f2 f3 path s) = 0
       \<and> files s' = files (snd (db_init f1 f2 f3 path s)) \<longrightarrow>
      fst (db_init NoFault NoFault NoFault path s') = 0
      \<and> schema_at path (snd (db_init NoFault NoFault NoFault path s'))
          = schema_at path (snd (db_init f1 f2 f3 path s))
      \<and> store_ready (snd (db_init NoFault NoFault NoFault path s'))
      \<and> (count_tables ''messages'' (schema_at path s) \<le> 1
          \<and> count_indexes ''idx_messages_ts'' (schema_at path s) \<le> 1
          \<and> count_indexes ''idx_messages_topic'' (schema_at path s) \<le> 1
          \<longrightarrow> count_tables ''messages''
                (schema_at path (snd (db_init NoFault NoFault NoFault path s'))) = 1
            \<and> count_indexes ''idx_messages_ts''
                (schema_at path (snd (db_init NoFault NoFault NoFault path s'))) = 1
            \<and> count_indexes ''idx_messages_topic''
                (schema_at path (snd (db_init NoFault NoFault NoFault path s'))) = 1))"
  using db_init_fresh [of s path] db_init_again [of f1 f2 f3 path s s']
  by blast

theorem db_init_twice_witness:
  "fst (db_init NoFault NoFault NoFault ''./mqtt_messages.db'' (initial_state Map.empty)) = 0
   \<and> fst (db_init NoFault NoFault NoFault ''./mqtt_messages.db''
            (initial_state
               (files (snd (db_init NoFault NoFault NoFault ''./mqtt_messages.db''
                              (initial_state Map.empty)))))) = 0
   \<and> schema_at ''./mqtt_messages.db''
        (snd (db_init NoFault NoFault NoFault ''./mqtt_messages.db''
                (initial_state
                   (files (snd (db_init NoFault NoFault NoFault ''./mqtt_messages.db''
                                  (initial_state Map.empty))))))) =
       [Table ''messages'' [''id'', ''ts'', ''topic'', ''payload'', ''qos'', ''retain''],
        Index ''idx_messages_ts'' ''messages'' ''ts'',
        Index ''idx_messages_topic'' ''messages'' ''topic'']
   \<and> count_tables ''messages''
        (schema_at ''./mqtt_messages.db''
           (snd (db_init NoFault NoFault NoFault ''./mqtt_messages.db''
                   (initial_state
                      (files (snd (db_init NoFault NoFault NoFault ''./mqtt_messages.db''
                                     (initial_state Map.empty)))))))) = 1"
  using db_init_twice
          [where s = "initial_state Map.empty" and path = "''./mqtt_messages.db''"
             and ?f1.0 = NoFault and ?f2.0 = NoFault and ?f3.0 = NoFault
             and s' = "initial_state
                         (files (snd (db_init NoFault NoFault NoFault ''./mqtt_messages.db''
                                        (initial_state Map.empty))))"]
  by (simp add: initial_state_def schema_at_def count_tables_def count_indexes_def)

section \<open>Properties of the store writer\<close>

lemma replicate5: "replicate 5 x = [x, x, x, x, x]"
  by (simp add: numeral_eq_Suc)

lemma prepared_statement:
  assumes "length (bindings st) = 5"
  shows "sqlite3_bind_int 5 retain
     (sqlite3_bind_int 4 qos
        (sqlite3_bind_text 3
           (case payload_buffer malloc_ok payload payloadlen of
              Some b \<Rightarrow> Some b | None \<Rightarrow> Some [CHR 0x00])
           (sqlite3_bind_text 2 topic
              (sqlite3_bind_int64 1 now (sqlite3_clear_bindings (sqlite3_reset st))))))
     = st\<lparr>stmt_state := Ready,
          bindings := insert_values now malloc_ok topic payload payloadlen qos retain\<rparr>"
  using assms
  by (simp add: sqlite3_bind_int_def sqlite3_bind_int64_def sqlite3_bind_text_def
      sqlite3_bind_def sqlite3_clear_bindings_def sqlite3_reset_def replicate5 insert_values_def
      text_value_def payload_text_def split: option.splits)

lemma store_readyE:
  assumes "store_ready s"
  obtains c st db where "g_db s = Some c" and "g_stmt_insert s = Some st"
    and "stmt_db st = conn_path c" and "length (bindings st) = 5"
    and "files s (conn_path c) = Some db"
  using assms by (auto simp: store_ready_def split: option.splits)

lemma step_failed:
  assumes "step_fails f_step topic"
  shows "sqlite3_step f_step
           (st\<lparr>stmt_state := Ready,
               bindings := insert_values now malloc_ok topic payload payloadlen qos retain\<rparr>) fs
         = (if f_step \<noteq> NoFault then fault_code f_step else SQLITE_CONSTRAINT,
            st\<lparr>stmt_state := Failed,
               bindings := insert_values now malloc_ok topic payload payloadlen qos retain\<rparr>,
            fs)"
  using assms
  by (auto simp: sqlite3_step_def step_fails_def insert_values_def text_value_def
      split: option.splits)

lemma step_done:
  assumes "fs (stmt_db st) = Some db"
  shows "sqlite3_step NoFault
           (st\<lparr>stmt_state := Ready,
               bindings := insert_values now malloc_ok (Some t) payload payloadlen qos retain\<rparr>) fs
         = (SQLITE_DONE,
            st\<lparr>stmt_state := Done,
               bindings := insert_values now malloc_ok (Some t) payload payloadlen qos retain\<rparr>,
            fs(stmt_db st \<mapsto>
               db\<lparr>rows := rows db @
                      [inserted_row (Suc (seq db)) now malloc_ok t payload payloadlen qos retain],
                  seq := Suc (seq db)\<rparr>))"
  using assms
  by (simp add: sqlite3_step_def insert_values_def text_value_def inserted_row_def)

lemma fault_code_not_done: "fault_code f \<noteq> SQLITE_DONE"
  by (cases f) (simp_all add: SQLITE_DONE_def)

lemma db_insert_message_failed:
  assumes st: "g_stmt_insert s = Some st" and len: "length (bindings st) = 5"
    and fails: "step_fails f_step topic"
  shows "db_insert_message now malloc_ok f_step topic payload payloadlen qos retain s
         = emit [StderrStepFailed]
             (s\<lparr>g_stmt_insert :=
                  Some (st\<lparr>stmt_state := Failed,
                           bindings := insert_values now malloc_ok topic payload payloadlen
                                         qos retain\<rparr>)\<rparr>)"
  unfolding db_insert_message_def Let_def st option.case prepared_statement [OF len]
    step_failed [OF fails]
  by (simp add: fault_code_not_done) (simp add: SQLITE_CONSTRAINT_def SQLITE_DONE_def)

lemma db_insert_message_done:
  assumes st: "g_stmt_insert s = Some st" and len: "length (bindings st) = 5"
    and db: "files s (stmt_db st) = Some db"
  shows "db_insert_message now malloc_ok NoFault (Some t) payload payloadlen qos retain s
         = s\<lparr>g_stmt_insert :=
                Some (st\<lparr>stmt_state := Done,
                         bindings := insert_values now malloc_ok (Some t) payload payloadlen
                                       qos retain\<rparr>),
              files := (files s)(stmt_db st \<mapsto>
                 db\<lparr>rows := rows db @
                        [inserted_row (Suc (seq db)) now malloc_ok t payload payloadlen
                           qos retain],
                    seq := Suc (seq db)\<rparr>)\<rparr>"
  unfolding db_insert_message_def Let_def st option.case prepared_statement [OF len]
    step_done [where fs = "files s", OF db]
  by simp

lemma insert_failed_effect:
  assumes ready: "store_ready s" and fails: "step_fails f_step topic"
  shows "db_insert_message now malloc_ok f_step topic payload payloadlen qos retain s
         = emit [StderrStepFailed]
             (s\<lparr>g_stmt_insert :=
                  map_option
                    (\<lambda>st. st\<lparr>stmt_state := Failed,
                              bindings := insert_values now malloc_ok topic payload payloadlen
                                            qos retain\<rparr>)
                    (g_stmt_insert s)\<rparr>)"
proof -
  from ready obtain st where "g_stmt_insert s = Some st" "length (bindings st) = 5"
    by (auto elim: store_readyE)
  from db_insert_message_failed [OF this fails] \<open>g_stmt_insert s = Some st\<close>
  show ?thesis by simp
qed

lemma insert_done_effect:
  assumes ready: "store_ready s"
  shows "stored_rows
           (db_insert_message now malloc_ok NoFault (Some t) payload payloadlen qos retain s)
         = stored_rows s @ [inserted_row (next_id s) now malloc_ok t payload payloadlen qos retain]"
    and "new_events s
           (db_insert_message now malloc_ok NoFault (Some t) payload payloadlen qos retain s) = []"
    and "store_ready
           (db_insert_message now malloc_ok NoFault (Some t) payload payloadlen qos retain s)"
    and "g_stmt_insert
           (db_insert_message now malloc_ok NoFault (Some t) payload payloadlen qos retain s)
         = map_option
             (\<lambda>st. st\<lparr>stmt_state := Done,
                       bindings := insert_values now malloc_ok (Some t) payload payloadlen
                                     qos retain\<rparr>)
             (g_stmt_insert s)"
proof -
  from ready obtain c st db where c: "g_db s = Some c" and st: "g_stmt_insert s = Some st"
    and same: "stmt_db st = conn_path c" and len: "length (bindings st) = 5"
    and db: "files s (conn_path c) = Some db"
    by (rule store_readyE)
  from db same have "files s (stmt_db st) = Some db" by simp
  note eq = db_insert_message_done [OF st len this]
  show "stored_rows
           (db_insert_message now malloc_ok NoFault (Some t) payload payloadlen qos retain s)
         = stored_rows s @ [inserted_row (next_id s) now malloc_ok t payload payloadlen qos retain]"
    by (simp add: eq stored_rows_def next_id_def c same db)
  show "new_events s
           (db_insert_message now malloc_ok NoFault (Some t) payload payloadlen qos retain s) = []"
    by (simp add: eq new_events_def)
  show "store_ready
           (db_insert_message now malloc_ok NoFault (Some t) payload payloadlen qos retain s)"
    by (simp add: eq store_ready_def c same insert_values_def)
  show "g_stmt_insert
           (db_insert_message now malloc_ok NoFault (Some t) payload payloadlen qos retain s)
         = map_option
             (\<lambda>st. st\<lparr>stmt_state := Done,
                       bindings := insert_values now malloc_ok (Some t) payload payloadlen
                                     qos retain\<rparr>)
             (g_stmt_insert s)"
    by (simp add: eq st)
qed

lemma insert_failed_facts:
  assumes ready: "store_ready s" and fails: "step_fails f_step topic"
  shows "stored_rows
           (db_insert_message now malloc_ok f_step topic payload payloadlen qos retain s)
         = stored_rows s"
    and "next_id
           (db_insert_message now malloc_ok f_step topic payload payloadlen qos retain s)
         = next_id s"
    and "new_events s
           (db_insert_message now malloc_ok f_step topic payload payloadlen qos retain s)
         = [StderrStepFailed]"
    and "store_ready
           (db_insert_message now malloc_ok f_step topic payload payloadlen qos retain s)"
  using ready unfolding insert_failed_effect [OF ready fails]
  by (auto simp: stored_rows_def next_id_def new_events_def emit_def store_ready_def
      insert_values_def split: option.splits)

lemma step_fails_cases:
  obtains (fails) "step_fails f_step topic" | (runs) t where "f_step = NoFault" "topic = Some t"
  by (cases topic; cases "f_step = NoFault") (auto simp: step_fails_def)

lemma insert_bound:
  assumes ready: "store_ready s"
  shows "map_option bindings
           (g_stmt_insert
              (db_insert_message now malloc_ok f_step topic payload payloadlen qos retain s))
         = Some (insert_values now malloc_ok topic payload payloadlen qos retain)"
proof (cases f_step topic rule: step_fails_cases)
  case fails
  from ready show ?thesis
    unfolding insert_failed_effect [OF ready fails]
    by (auto simp: emit_def store_ready_def split: option.splits)
next
  case (runs t)
  from ready show ?thesis
    unfolding runs insert_done_effect(4) [OF ready]
    by (auto simp: store_ready_def split: option.splits)
qed

lemma insert_bound_param:
  assumes ready: "store_ready s" and i: "1 \<le> i" "i \<le> 5"
  shows "bound_param i
           (db_insert_message now malloc_ok f_step topic payload payloadlen qos retain s)
         = Some (insert_values now malloc_ok topic payload payloadlen qos retain ! (i - 1))"
  using insert_bound [OF ready, of now malloc_ok f_step topic payload payloadlen qos retain] i
  by (auto simp: bound_param_def insert_values_def split: option.splits)

lemma insert_resets:
  assumes ready: "store_ready s" and len: "length bs = 5"
  shows "db_insert_message now malloc_ok f_step topic payload payloadlen qos retain
           (s\<lparr>g_stmt_insert :=
                map_option (\<lambda>st. st\<lparr>stmt_state := x, bindings := bs\<rparr>) (g_stmt_insert s)\<rparr>)
         = db_insert_message now malloc_ok f_step topic payload payloadlen qos retain s"
proof -
  from ready obtain c st db where c: "g_db s = Some c" and st: "g_stmt_insert s = Some st"
    and same: "stmt_db st = conn_path c" and len0: "length (bindings st) = 5"
    and db: "files s (conn_path c) = Some db"
    by (rule store_readyE)
  let ?s = "s\<lparr>g_stmt_insert := Some (st\<lparr>stmt_state := x, bindings := bs\<rparr>)\<rparr>"
  have st': "g_stmt_insert ?s = Some (st\<lparr>stmt_state := x, bindings := bs\<rparr>)"
    and len': "length (bindings (st\<lparr>stmt_state := x, bindings := bs\<rparr>)) = 5"
    by (simp_all add: len)
  show ?thesis
  proof (cases f_step topic rule: step_fails_cases)
    case fails
    show ?thesis
      unfolding st map_option_case option.case
      by (simp add: db_insert_message_failed [OF st' len' fails]
          db_insert_message_failed [OF st len0 fails] emit_def)
  next
    case (runs t)
    from db same have d: "files s (stmt_db st) = Some db" by simp
    then have d': "files ?s (stmt_db (st\<lparr>stmt_state := x, bindings := bs\<rparr>)) = Some db"
      by simp
    show ?thesis
      unfolding st map_option_case option.case runs
      by (simp add: db_insert_message_done [OF st' len' d']
          db_insert_message_done [OF st len0 d])
  qed
qed

lemma db_init_fresh_ready:
  assumes "files s path = None"
  shows "store_ready (snd (db_init NoFault NoFault NoFault path s))"
    and "stored_rows (snd (db_init NoFault NoFault NoFault path s)) = []"
    and "next_id (snd (db_init NoFault NoFault NoFault path s)) = 1"
  using assms
  by (simp_all add: db_init_nofault Let_def ddl_fresh empty_database_def columns_present_def
      insert_columns_def store_ready_def stored_rows_def next_id_def SQLITE_OK_def)

text \<open>
  Claim C2. When the step of an insert call fails (the engine meets a fault such as a full
  disk, or refuses a NULL topic), \<^verbatim>\<open>db_insert_message\<close> writes the failure line and
  returns: apart from that line and the statement, which keeps the values just bound, the
  state is the one before the call, and no record was added. The insert call for the next
  message, on the state the failed one returned, adds its record.
\<close>

theorem step_failure_only_logged:
  "store_ready s \<and> step_fails f_step topic \<longrightarrow>
     db_insert_message now malloc_ok f_step topic payload payloadlen qos retain s
       = emit [StderrStepFailed]
           (s\<lparr>g_stmt_insert :=
                map_option
                  (\<lambda>st. st\<lparr>stmt_state := Failed,
                            bindings := insert_values now malloc_ok topic payload payloadlen
                                          qos retain\<rparr>)
                  (g_stmt_insert s)\<rparr>)
     \<and> stored_rows
         (db_insert_message now malloc_ok f_step topic payload payloadlen qos retain s)
        = stored_rows s
     \<and> stored_rows
         (db_insert_message now' malloc_ok' NoFault (Some topic') payload' payloadlen' qos' retain'
            (db_insert_message now malloc_ok f_step topic payload payloadlen qos retain s))
        = stored_rows s
          @ [inserted_row (next_id s) now' malloc_ok' topic' payload' payloadlen' qos' retain']"
proof (intro impI, elim conjE)
  assume ready: "store_ready s" and fails: "step_fails f_step topic"
  note f = insert_failed_facts [OF ready fails]
  show "db_insert_message now malloc_ok f_step topic payload payloadlen qos retain s
       = emit [StderrStepFailed]
           (s\<lparr>g_stmt_insert :=
                map_option
                  (\<lambda>st. st\<lparr>stmt_state := Failed,
                            bindings := insert_values now malloc_ok topic payload payloadlen
                                          qos retain\<rparr>)
                  (g_stmt_insert s)\<rparr>)
     \<and> stored_rows
         (db_insert_message now malloc_ok f_step topic payload payloadlen qos retain s)
        = stored_rows s
     \<and> stored_rows
         (db_insert_message now' malloc_ok' NoFault (Some topic') payload' payloadlen' qos' retain'
            (db_insert_message now malloc_ok f_step topic payload payloadlen qos retain s))
        = stored_rows s
          @ [inserted_row (next_id s) now' malloc_ok' topic' payload' payloadlen' qos' retain']"
    apply (rule conjI [OF insert_failed_effect [OF ready fails]])
    apply (rule conjI [OF f(1)])
    apply (rule insert_done_effect(1) [OF f(4), unfolded f(1) f(2)])
    done
qed

theorem step_failure_only_logged_witness:
  "stored_rows
     (db_insert_message 1700000000 True DiskFull (Some ''obk/a'') (Some ''1'') 1 0 0
        (snd (db_init NoFault NoFault NoFault ''m.db'' (initial_state Map.empty)))) = []
   \<and> stored_rows
       (db_insert_message 1700000005 True NoFault (Some ''obk/b'') (Some ''2'') 1 1 0
          (db_insert_message 1700000000 True DiskFull (Some ''obk/a'') (Some ''1'') 1 0 0
             (snd (db_init NoFault NoFault NoFault ''m.db'' (initial_state Map.empty)))))
      = [\<lparr> col_id = 1, col_ts = 1700000005, col_topic = ''obk/b'', col_payload = ''2'',
            col_qos = 1, col_retain = 0 \<rparr>]"
proof -
  let ?s = "snd (db_init NoFault NoFault NoFault ''m.db'' (initial_state Map.empty))"
  have fresh: "files (initial_state Map.empty) ''m.db'' = None"
    by (simp add: initial_state_def)
  have ready: "store_ready ?s" and rows: "stored_rows ?s = []" and id: "next_id ?s = 1"
    by (simp_all only: db_init_fresh_ready [OF fresh])
  have fails: "step_fails DiskFull (Some ''obk/a'')"
    by (simp add: step_fails_def)
  note t = step_failure_only_logged
          [where s = ?s and f_step = DiskFull and topic = "Some ''obk/a''" and now = 1700000000
             and malloc_ok = True and payload = "Some ''1''" and payloadlen = 1 and qos = 0
             and retain = 0 and now' = 1700000005 and malloc_ok' = True
             and topic' = "''obk/b''" and payload' = "Some ''2''" and payloadlen' = 1
             and qos' = 1 and retain' = 0, THEN mp, OF conjI [OF ready fails], THEN conjunct2]
  show ?thesis
    unfolding t [THEN conjunct1] t [THEN conjunct2] rows id
    by (simp add: inserted_row_def payload_text_def payload_buffer_def c_str_def)
qed

lemma payload_text_cases:
  "payload_text malloc_ok payload payloadlen =
     (case payload of
        None \<Rightarrow> []
      | Some bs \<Rightarrow>
          if 0 \<le> payloadlen \<and> malloc_ok then c_str (take (nat payloadlen) bs @ [CHR 0x00])
          else [])"
  by (simp add: payload_text_def payload_buffer_def c_str_def split: option.splits)

lemma c_str_terminated: "c_str (bs @ [CHR 0x00]) = takeWhile (\<lambda>c. c \<noteq> CHR 0x00) bs"
  by (induction bs) (simp_all add: c_str_def)

lemma takeWhile_shorter:
  "x \<in> set xs \<Longrightarrow> length (takeWhile (\<lambda>c. c \<noteq> x) xs) < length xs"
  by (induction xs) auto

text \<open>
  Claim C4, as the code has it. Every insert call on a prepared statement binds a text to
  the payload parameter, never SQL NULL. A \<^verbatim>\<open>NULL\<close> payload pointer or a negative
  \<open>payloadlen\<close> binds the empty string, and so does a payload of length 0. Any other
  payload is copied into a buffer of \<open>payloadlen + 1\<close> bytes, a NUL is put after the copy,
  and the buffer is bound as a C string, provided that \<^verbatim>\<open>malloc\<close> returns the buffer;
  when \<^verbatim>\<open>malloc\<close> fails, the empty string is bound instead.
\<close>

theorem payload_never_null:
  "store_ready s \<longrightarrow>
     bound_param 3 (db_insert_message now malloc_ok f_step topic payload payloadlen qos retain s)
       = Some (SqlText (payload_text malloc_ok payload payloadlen))
     \<and> bound_param 3
         (db_insert_message now malloc_ok f_step topic payload payloadlen qos retain s)
       \<noteq> Some SqlNull
     \<and> (payload = None \<or> payloadlen < 0 \<longrightarrow> payload_text malloc_ok payload payloadlen = [])
     \<and> (payload = Some bs \<and> payloadlen = 0 \<longrightarrow> payload_text malloc_ok payload payloadlen = [])
     \<and> (payload = Some bs \<and> 0 \<le> payloadlen \<and> malloc_ok \<longrightarrow>
          payload_buffer malloc_ok payload payloadlen
            = Some (take (nat payloadlen) bs @ [CHR 0x00])
          \<and> payload_text malloc_ok payload payloadlen
            = c_str (take (nat payloadlen) bs @ [CHR 0x00]))
     \<and> (payload = Some bs \<and> 0 \<le> payloadlen \<and> \<not> malloc_ok \<longrightarrow>
          payload_text malloc_ok payload payloadlen = [])"
proof
  assume ready: "store_ready s"
  have bound: "bound_param 3
      (db_insert_message now malloc_ok f_step topic payload payloadlen qos retain s)
       = Some (SqlText (payload_text malloc_ok payload payloadlen))"
    using insert_bound_param [OF ready, of 3] by (simp add: insert_values_def)
  show "bound_param 3 (db_insert_message now malloc_ok f_step topic payload payloadlen qos retain s)
       = Some (SqlText (payload_text malloc_ok payload payloadlen))
     \<and> bound_param 3
         (db_insert_message now malloc_ok f_step topic payload payloadlen qos retain s)
       \<noteq> Some SqlNull
     \<and> (payload = None \<or> payloadlen < 0 \<longrightarrow> payload_text malloc_ok payload payloadlen = [])
     \<and> (payload = Some bs \<and> payloadlen = 0 \<longrightarrow> payload_text malloc_ok payload payloadlen = [])
     \<and> (payload = Some bs \<and> 0 \<le> payloadlen \<and> malloc_ok \<longrightarrow>
          payload_buffer malloc_ok payload payloadlen
            = Some (take (nat payloadlen) bs @ [CHR 0x00])
          \<and> payload_text malloc_ok payload payloadlen
            = c_str (take (nat payloadlen) bs @ [CHR 0x00]))
     \<and> (payload = Some bs \<and> 0 \<le> payloadlen \<and> \<not> malloc_ok \<longrightarrow>
          payload_text malloc_ok payload payloadlen = [])"
    unfolding bound
    by (auto simp: payload_text_cases payload_buffer_def c_str_def split: option.splits)
qed

theorem payload_never_null_witness:
  "bound_param 3
     (db_insert_message 1700000000 True NoFault (Some ''obk/a'') (Some ''abc'') 3 0 0
        (snd (db_init NoFault NoFault NoFault ''m.db'' (initial_state Map.empty))))
     = Some (SqlText ''abc'')
   \<and> bound_param 3
     (db_insert_message 1700000000 True NoFault (Some ''obk/a'') None 0 0 0
        (snd (db_init NoFault NoFault NoFault ''m.db'' (initial_state Map.empty))))
     = Some (SqlText [])
   \<and> bound_param 3
     (db_insert_message 1700000000 True NoFault (Some ''obk/a'') (Some ''abc'') 0 0 0
        (snd (db_init NoFault NoFault NoFault ''m.db'' (initial_state Map.empty))))
     = Some (SqlText [])
   \<and> bound_param 3
     (db_insert_message 1700000000 False NoFault (Some ''obk/a'') (Some ''abc'') 3 0 0
        (snd (db_init NoFault NoFault NoFault ''m.db'' (initial_state Map.empty))))
     = Some (SqlText [])"
proof -
  let ?s = "snd (db_init NoFault NoFault NoFault ''m.db'' (initial_state Map.empty))"
  have fresh: "files (initial_state Map.empty) ''m.db'' = None"
    by (simp add: initial_state_def)
  have ready: "store_ready ?s"
    by (rule db_init_fresh_ready [OF fresh])
  from payload_never_null [where s = ?s and now = 1700000000 and f_step = NoFault
      and topic = "Some ''obk/a''" and qos = 0 and retain = 0 and bs = "''abc''"
      and malloc_ok = True and payload = "Some ''abc''" and payloadlen = 3, THEN mp, OF ready]
    payload_never_null [where s = ?s and now = 1700000000 and f_step = NoFault
      and topic = "Some ''obk/a''" and qos = 0 and retain = 0 and bs = "''abc''"
      and malloc_ok = True and payload = "None" and payloadlen = 0, THEN mp, OF ready]
    payload_never_null [where s = ?s and now = 1700000000 and f_step = NoFault
      and topic = "Some ''obk/a''" and qos = 0 and retain = 0 and bs = "''abc''"
      and malloc_ok = True and payload = "Some ''abc''" and payloadlen = 0, THEN mp, OF ready]
    payload_never_null [where s = ?s and now = 1700000000 and f_step = NoFault
      and topic = "Some ''obk/a''" and qos = 0 and retain = 0 and bs = "''abc''"
      and malloc_ok = False and payload = "Some ''abc''" and payloadlen = 3, THEN mp, OF ready]
  show ?thesis
    by (simp add: c_str_def)
qed

text \<open>
  The claim as it was written has every binary payload stored as the text of its copied
  bytes. For the three bytes \<open>abc\<close> and a failing \<^verbatim>\<open>malloc\<close> the empty string is bound,
  not \<open>abc\<close>.
\<close>

theorem payload_text_counterexample:
  "bound_param 3
     (db_insert_message 1700000000 False NoFault (Some ''obk/a'') (Some ''abc'') 3 0 0
        (snd (db_init NoFault NoFault NoFault ''m.db'' (initial_state Map.empty))))
     = Some (SqlText [])
   \<and> bound_param 3
     (db_insert_message 1700000000 False NoFault (Some ''obk/a'') (Some ''abc'') 3 0 0
        (snd (db_init NoFault NoFault NoFault ''m.db'' (initial_state Map.empty))))
     \<noteq> Some (SqlText (c_str (take (nat 3) ''abc'' @ [CHR 0x00])))
   \<and> c_str (take (nat 3) ''abc'' @ [CHR 0x00]) = ''abc''"
proof -
  let ?s = "snd (db_init NoFault NoFault NoFault ''m.db'' (initial_state Map.empty))"
  have fresh: "files (initial_state Map.empty) ''m.db'' = None"
    by (simp add: initial_state_def)
  have ready: "store_ready ?s"
    by (rule db_init_fresh_ready [OF fresh])
  from insert_bound_param [OF ready, of 3 1700000000 False NoFault "Some ''obk/a''" "Some ''abc''" 3 0 0]
  show ?thesis
    by (simp add: insert_values_def payload_text_cases c_str_def)
qed

text \<open>
  Claim C5, as the code has it. For a payload of \<open>payloadlen\<close> bytes with a NUL among
  them, an insert call whose \<^verbatim>\<open>malloc\<close> succeeds binds the bytes before the first NUL,
  which are fewer than the payload has, and that is the payload of the record when the
  step succeeds. When \<^verbatim>\<open>malloc\<close> fails the empty string is bound.
\<close>

theorem embedded_nul_truncates:
  "store_ready s \<and> payload = Some bs \<and> payloadlen = int (length bs) \<and> CHR 0x00 \<in> set bs \<longrightarrow>
     (malloc_ok \<longrightarrow>
        bound_param 3
          (db_insert_message now malloc_ok f_step topic payload payloadlen qos retain s)
          = Some (SqlText (takeWhile (\<lambda>c. c \<noteq> CHR 0x00) bs))
        \<and> length (takeWhile (\<lambda>c. c \<noteq> CHR 0x00) bs) < length bs
        \<and> (f_step = NoFault \<and> topic = Some t \<longrightarrow>
             col_payload
               (last (stored_rows
                  (db_insert_message now malloc_ok f_step topic payload payloadlen qos retain s)))
             = takeWhile (\<lambda>c. c \<noteq> CHR 0x00) bs))
     \<and> (\<not> malloc_ok \<longrightarrow>
        bound_param 3
          (db_insert_message now malloc_ok f_step topic payload payloadlen qos retain s)
          = Some (SqlText []))"
proof (intro impI, elim conjE)
  assume ready: "store_ready s" and p: "payload = Some bs" and n: "payloadlen = int (length bs)"
    and nul: "CHR 0x00 \<in> set bs"
  have bound: "bound_param 3
      (db_insert_message now malloc_ok f_step topic payload payloadlen qos retain s)
       = Some (SqlText (payload_text malloc_ok payload payloadlen))"
    using insert_bound_param [OF ready, of 3] by (simp add: insert_values_def)
  have which: "payload_text malloc_ok payload payloadlen =
                (if malloc_ok then takeWhile (\<lambda>c. c \<noteq> CHR 0x00) bs else [])"
    by (simp add: payload_text_cases p n c_str_terminated)
  have stored: "col_payload
               (last (stored_rows
                  (db_insert_message now malloc_ok NoFault (Some t) payload payloadlen qos retain s)))
             = payload_text malloc_ok payload payloadlen"
    by (simp add: insert_done_effect(1) [OF ready] inserted_row_def)
  show "(malloc_ok \<longrightarrow>
        bound_param 3
          (db_insert_message now malloc_ok f_step topic payload payloadlen qos retain s)
          = Some (SqlText (takeWhile (\<lambda>c. c \<noteq> CHR 0x00) bs))
        \<and> length (takeWhile (\<lambda>c. c \<noteq> CHR 0x00) bs) < length bs
        \<and> (f_step = NoFault \<and> topic = Some t \<longrightarrow>
             col_payload
               (last (stored_rows
                  (db_insert_message now malloc_ok f_step topic payload payloadlen qos retain s)))
             = takeWhile (\<lambda>c. c \<noteq> CHR 0x00) bs))
     \<and> (\<not> malloc_ok \<longrightarrow>
        bound_param 3
          (db_insert_message now malloc_ok f_step topic payload payloadlen qos retain s)
          = Some (SqlText []))"
    using stored takeWhile_shorter [OF nul] unfolding bound which
    by auto
qed

theorem embedded_nul_truncates_witness:
  "bound_param 3
     (db_insert_message 1700000000 True NoFault (Some ''obk/a'')
        (Some (''ab'' @ [CHR 0x00] @ ''cd'')) 5 0 0
        (snd (db_init NoFault NoFault NoFault ''m.db'' (initial_state Map.empty))))
     = Some (SqlText ''ab'')
   \<and> col_payload
       (last (stored_rows
          (db_insert_message 1700000000 True NoFault (Some ''obk/a'')
             (Some (''ab'' @ [CHR 0x00] @ ''cd'')) 5 0 0
             (snd (db_init NoFault NoFault NoFault ''m.db'' (initial_state Map.empty))))))
     = ''ab''"
proof -
  let ?s = "snd (db_init NoFault NoFault NoFault ''m.db'' (initial_state Map.empty))"
  have fresh: "files (initial_state Map.empty) ''m.db'' = None"
    by (simp add: initial_state_def)
  have ready: "store_ready ?s"
    by (rule db_init_fresh_ready [OF fresh])
  from ready
    embedded_nul_truncates [where s = ?s and now = 1700000000 and f_step = NoFault
      and topic = "Some ''obk/a''" and t = "''obk/a''" and qos = 0 and retain = 0
      and bs = "''ab'' @ [CHR 0x00] @ ''cd''" and malloc_ok = True
      and payload = "Some (''ab'' @ [CHR 0x00] @ ''cd'')" and payloadlen = 5]
  show ?thesis
    by simp
qed

text \<open>
  The claim as it was written has the prefix before the first NUL stored for every such
  payload. For the five bytes \<open>ab\<close>, NUL, \<open>cd\<close> and a failing \<^verbatim>\<open>malloc\<close> the record
  holds the empty string, not \<open>ab\<close>.
\<close>

theorem embedded_nul_counterexample:
  "CHR 0x00 \<in> set (''ab'' @ [CHR 0x00] @ ''cd'')
   \<and> takeWhile (\<lambda>c. c \<noteq> CHR 0x00) (''ab'' @ [CHR 0x00] @ ''cd'') = ''ab''
   \<and> bound_param 3
     (db_insert_message 1700000000 False NoFault (Some ''obk/a'')
        (Some (''ab'' @ [CHR 0x00] @ ''cd'')) 5 0 0
        (snd (db_init NoFault NoFault NoFault ''m.db'' (initial_state Map.empty))))
     = Some (SqlText [])
   \<and> col_payload
       (last (stored_rows
          (db_insert_message 1700000000 False NoFault (Some ''obk/a'')
             (Some (''ab'' @ [CHR 0x00] @ ''cd'')) 5 0 0
             (snd (db_init NoFault NoFault NoFault ''m.db'' (initial_state Map.empty))))))
     = []"
proof -
  let ?s = "snd (db_init NoFault NoFault NoFault ''m.db'' (initial_state Map.empty))"
  have fresh: "files (initial_state Map.empty) ''m.db'' = None"
    by (simp add: initial_state_def)
  have ready: "store_ready ?s"
    by (rule db_init_fresh_ready [OF fresh])
  from insert_bound_param [OF ready, of 3 1700000000 False NoFault "Some ''obk/a''"
      "Some (''ab'' @ [CHR 0x00] @ ''cd'')" 5 0 0]
    insert_done_effect(1) [OF ready, of 1700000000 False "''obk/a''"
      "Some (''ab'' @ [CHR 0x00] @ ''cd'')" 5 0 0]
  show ?thesis
    by (simp add: insert_values_def payload_text_cases inserted_row_def)
qed

lemma insert_stmt_state:
  assumes ready: "store_ready s"
  shows "map_option stmt_state
           (g_stmt_insert
              (db_insert_message now malloc_ok f_step topic payload payloadlen qos retain s))
         = Some (if step_fails f_step topic then Failed else Done)"
proof (cases f_step topic rule: step_fails_cases)
  case fails
  from ready show ?thesis
    unfolding insert_failed_effect [OF ready fails]
    by (auto simp: emit_def store_ready_def fails split: option.splits)
next
  case (runs t)
  from ready show ?thesis
    unfolding runs insert_done_effect(4) [OF ready]
    by (auto simp: store_ready_def step_fails_def split: option.splits)
qed

lemma insert_keeps_ready:
  assumes ready: "store_ready s"
  shows "store_ready
           (db_insert_message now malloc_ok f_step topic payload payloadlen qos retain s)"
proof (cases f_step topic rule: step_fails_cases)
  case fails
  from insert_failed_facts(4) [OF ready fails] show ?thesis .
next
  case (runs t)
  from insert_done_effect(3) [OF ready] show ?thesis
    unfolding runs .
qed

text \<open>
  Claim C6, as the code has it. An insert call on a prepared statement first resets the
  statement and clears its bindings: in whatever state and with whatever bindings the
  statement was left (ready, stepped to completion, or failed), the call has the same
  result. It then binds the clock reading taken in the call as the timestamp and binds
  topic, payload, qos and retain flag, and it steps the statement, which adds the record
  with exactly these values when the step succeeds and only writes the failure line when
  it fails. The statement is not reset after the step: the call returns with it stepped
  to completion or failed, and with the values just bound. The state it returns is again
  one on which an insert call can run, since that call begins with the reset.
\<close>

theorem insert_binds_executes_resets:
  "store_ready s \<longrightarrow>
     (let s' = db_insert_message now malloc_ok f_step topic payload payloadlen qos retain s
      in bound_param 1 s' = Some (SqlInteger now)
         \<and> bound_param 2 s' = Some (text_value topic)
         \<and> bound_param 3 s' = Some (SqlText (payload_text malloc_ok payload payloadlen))
         \<and> bound_param 4 s' = Some (SqlInteger qos)
         \<and> bound_param 5 s' = Some (SqlInteger retain)
         \<and> map_option stmt_state (g_stmt_insert s')
             = Some (if step_fails f_step topic then Failed else Done)
         \<and> (f_step = NoFault \<and> topic = Some t \<longrightarrow>
              stored_rows s' = stored_rows s
                @ [inserted_row (next_id s) now malloc_ok t payload payloadlen qos retain]
              \<and> new_events s s' = [])
         \<and> (step_fails f_step topic \<longrightarrow>
              stored_rows s' = stored_rows s \<and> new_events s s' = [StderrStepFailed])
         \<and> (length bs = 5 \<longrightarrow>
              db_insert_message now malloc_ok f_step topic payload payloadlen qos retain
                (s\<lparr>g_stmt_insert :=
                     map_option (\<lambda>st. st\<lparr>stmt_state := x, bindings := bs\<rparr>)
                       (g_stmt_insert s)\<rparr>) = s')
         \<and> store_ready s')"
proof
  assume ready: "store_ready s"
  note b = insert_bound_param [OF ready, of _ now malloc_ok f_step topic payload payloadlen
      qos retain]
  have b1: "bound_param 1
      (db_insert_message now malloc_ok f_step topic payload payloadlen qos retain s)
      = Some (SqlInteger now)"
    and b2: "bound_param 2
      (db_insert_message now malloc_ok f_step topic payload payloadlen qos retain s)
      = Some (text_value topic)"
    and b3: "bound_param 3
      (db_insert_message now malloc_ok f_step topic payload payloadlen qos retain s)
      = Some (SqlText (payload_text malloc_ok payload payloadlen))"
    and b4: "bound_param 4
      (db_insert_message now malloc_ok f_step topic payload payloadlen qos retain s)
      = Some (SqlInteger qos)"
    and b5: "bound_param 5
      (db_insert_message now malloc_ok f_step topic payload payloadlen qos retain s)
      = Some (SqlInteger retain)"
    using b [of 1] b [of 2] b [of 3] b [of 4] b [of 5]
    by (simp_all add: insert_values_def)
  have runs: "f_step = NoFault \<and> topic = Some t \<longrightarrow>
      stored_rows (db_insert_message now malloc_ok f_step topic payload payloadlen qos retain s)
        = stored_rows s
          @ [inserted_row (next_id s) now malloc_ok t payload payloadlen qos retain]
      \<and> new_events s
          (db_insert_message now malloc_ok f_step topic payload payloadlen qos retain s) = []"
    using insert_done_effect(1,2) [OF ready] by blast
  have fails: "step_fails f_step topic \<longrightarrow>
      stored_rows (db_insert_message now malloc_ok f_step topic payload payloadlen qos retain s)
        = stored_rows s
      \<and> new_events s
          (db_insert_message now malloc_ok f_step topic payload payloadlen qos retain s)
        = [StderrStepFailed]"
    using insert_failed_facts(1,3) [OF ready] by blast
  have resets: "length bs = 5 \<longrightarrow>
      db_insert_message now malloc_ok f_step topic payload payloadlen qos retain
        (s\<lparr>g_stmt_insert :=
             map_option (\<lambda>st. st\<lparr>stmt_state := x, bindings := bs\<rparr>) (g_stmt_insert s)\<rparr>)
      = db_insert_message now malloc_ok f_step topic payload payloadlen qos retain s"
    using insert_resets [OF ready] by blast
  show "let s' = db_insert_message now malloc_ok f_step topic payload payloadlen qos retain s
      in bound_param 1 s' = Some (SqlInteger now)
         \<and> bound_param 2 s' = Some (text_value topic)
         \<and> bound_param 3 s' = Some (SqlText (payload_text malloc_ok payload payloadlen))
         \<and> bound_param 4 s' = Some (SqlInteger qos)
         \<and> bound_param 5 s' = Some (SqlInteger retain)
         \<and> map_option stmt_state (g_stmt_insert s')
             = Some (if step_fails f_step topic then Failed else Done)
         \<and> (f_step = NoFault \<and> topic = Some t \<longrightarrow>
              stored_rows s' = stored_rows s
                @ [inserted_row (next_id s) now malloc_ok t payload payloadlen qos retain]
              \<and> new_events s s' = [])
         \<and> (step_fails f_step topic \<longrightarrow>
              stored_rows s' = stored_rows s \<and> new_events s s' = [StderrStepFailed])
         \<and> (length bs = 5 \<longrightarrow>
              db_insert_message now malloc_ok f_step topic payload payloadlen qos retain
                (s\<lparr>g_stmt_insert :=
                     map_option (\<lambda>st. st\<lparr>stmt_state := x, bindings := bs\<rparr>)
                       (g_stmt_insert s)\<rparr>) = s')
         \<and> store_ready s'"
    unfolding Let_def
    by (intro conjI b1 b2 b3 b4 b5 insert_stmt_state [OF ready] runs fails resets
        insert_keeps_ready [OF ready])
qed

theorem insert_binds_executes_resets_witness:
  "stored_rows
     (db_insert_message 1700000007 True NoFault (Some ''obk681BA32A/state'') (Some ''hello'') 5 1 0
        (db_insert_message 1700000000 True IoError (Some ''obk/a'') (Some ''x'') 1 0 0
           (snd (db_init NoFault NoFault NoFault ''m.db'' (initial_state Map.empty)))))
     = [\<lparr> col_id = 1, col_ts = 1700000007, col_topic = ''obk681BA32A/state'',
          col_payload = ''hello'', col_qos = 1, col_retain = 0 \<rparr>]
   \<and> bound_param 1
       (db_insert_message 1700000007 True NoFault (Some ''obk681BA32A/state'') (Some ''hello'') 5 1 0
          (db_insert_message 1700000000 True IoError (Some ''obk/a'') (Some ''x'') 1 0 0
             (snd (db_init NoFault NoFault NoFault ''m.db'' (initial_state Map.empty)))))
     = Some (SqlInteger 1700000007)"
proof -
  let ?s = "snd (db_init NoFault NoFault NoFault ''m.db'' (initial_state Map.empty))"
  let ?s1 = "db_insert_message 1700000000 True IoError (Some ''obk/a'') (Some ''x'') 1 0 0 ?s"
  have fresh: "files (initial_state Map.empty) ''m.db'' = None"
    by (simp add: initial_state_def)
  note r = db_init_fresh_ready [OF fresh]
  have fails: "step_fails IoError (Some ''obk/a'')"
    by (simp add: step_fails_def)
  note first = insert_binds_executes_resets
      [where s = ?s and now = 1700000000 and malloc_ok = True and f_step = IoError
         and topic = "Some ''obk/a''" and payload = "Some ''x''" and payloadlen = 1
         and qos = 0 and retain = 0 and bs = "replicate 5 SqlNull" and x = Ready
         and t = "''obk/a''",
       THEN mp, OF r(1), unfolded Let_def]
  from first fails have ready1: "store_ready ?s1" and rows1: "stored_rows ?s1 = stored_rows ?s"
    by simp_all
  have id1: "next_id ?s1 = next_id ?s"
    by (rule insert_failed_facts(2) [OF r(1) fails])
  note second = insert_binds_executes_resets
      [where s = ?s1 and now = 1700000007 and malloc_ok = True and f_step = NoFault
         and topic = "Some ''obk681BA32A/state''" and payload = "Some ''hello''"
         and payloadlen = 5 and qos = 1 and retain = 0 and bs = "replicate 5 SqlNull"
         and x = Ready and t = "''obk681BA32A/state''",
       THEN mp, OF ready1, unfolded Let_def]
  from second show ?thesis
    by (simp add: rows1 id1 r inserted_row_def payload_text_cases c_str_def)
qed

text \<open>
  The claim as it was written has every call reset the statement after the step, whether
  the step succeeded or failed. A call whose step fails on an I/O error returns with the
  statement failed, a call whose step succeeds returns with it stepped to completion:
  in neither case is the statement reset when the call returns, and a bind on the
  statement as it was returned is refused. The reset comes with the next call.
\<close>

theorem insert_reset_after_step_counterexample:
  "map_option stmt_state
     (g_stmt_insert
        (db_insert_message 1700000000 True IoError (Some ''obk/a'') (Some ''x'') 1 0 0
           (snd (db_init NoFault NoFault NoFault ''m.db'' (initial_state Map.empty)))))
     = Some Failed
   \<and> map_option stmt_state
     (g_stmt_insert
        (db_insert_message 1700000000 True NoFault (Some ''obk/a'') (Some ''x'') 1 0 0
           (snd (db_init NoFault NoFault NoFault ''m.db'' (initial_state Map.empty)))))
     = Some Done
   \<and> map_option stmt_state
     (g_stmt_insert
        (db_insert_message 1700000000 True IoError (Some ''obk/a'') (Some ''x'') 1 0 0
           (snd (db_init NoFault NoFault NoFault ''m.db'' (initial_state Map.empty)))))
     \<noteq> Some Ready
   \<and> map_option stmt_state
     (g_stmt_insert
        (db_insert_message 1700000000 True NoFault (Some ''obk/a'') (Some ''x'') 1 0 0
           (snd (db_init NoFault NoFault NoFault ''m.db'' (initial_state Map.empty)))))
     \<noteq> Some Ready
   \<and> map_option (sqlite3_bind_int64 1 1700000009)
     (g_stmt_insert
        (db_insert_message 1700000000 True IoError (Some ''obk/a'') (Some ''x'') 1 0 0
           (snd (db_init NoFault NoFault NoFault ''m.db'' (initial_state Map.empty)))))
     = g_stmt_insert
        (db_insert_message 1700000000 True IoError (Some ''obk/a'') (Some ''x'') 1 0 0
           (snd (db_init NoFault NoFault NoFault ''m.db'' (initial_state Map.empty))))"
proof -
  let ?s = "snd (db_init NoFault NoFault NoFault ''m.db'' (initial_state Map.empty))"
  let ?failed = "db_insert_message 1700000000 True IoError (Some ''obk/a'') (Some ''x'') 1 0 0 ?s"
  let ?stored = "db_insert_message 1700000000 True NoFault (Some ''obk/a'') (Some ''x'') 1 0 0 ?s"
  have fresh: "files (initial_state Map.empty) ''m.db'' = None"
    by (simp add: initial_state_def)
  have ready: "store_ready ?s"
    by (rule db_init_fresh_ready [OF fresh])
  have failed: "map_option stmt_state (g_stmt_insert ?failed) = Some Failed"
    using insert_stmt_state [OF ready, of 1700000000 True IoError "Some ''obk/a''" "Some ''x''" 1 0 0]
    by (simp add: step_fails_def)
  have stored: "map_option stmt_state (g_stmt_insert ?stored) = Some Done"
    using insert_stmt_state [OF ready, of 1700000000 True NoFault "Some ''obk/a''" "Some ''x''" 1 0 0]
    by (simp add: step_fails_def)
  from failed obtain st where st: "g_stmt_insert ?failed = Some st" "stmt_state st = Failed"
    by (cases "g_stmt_insert ?failed") auto
  have refused: "map_option (sqlite3_bind_int64 1 1700000009) (g_stmt_insert ?failed)
                   = g_stmt_insert ?failed"
    by (simp add: st sqlite3_bind_int64_def sqlite3_bind_def)
  have failed_not_reset: "map_option stmt_state (g_stmt_insert ?failed) \<noteq> Some Ready"
    unfolding failed by simp
  have stored_not_reset: "map_option stmt_state (g_stmt_insert ?stored) \<noteq> Some Ready"
    unfolding stored by simp
  show ?thesis
    by (rule conjI [OF failed conjI [OF stored conjI [OF failed_not_reset
          conjI [OF stored_not_reset refused]]]])
qed

section \<open>Properties of the integer configuration values\<close>

lemma skip_sign_length: "length (snd (skip_sign r)) \<le> length r"
  by (cases r) (simp_all add: skip_sign_def)

lemma subject_length: "length (snd (subject v)) \<le> length v"
proof -
  have "length (snd (subject v)) \<le> length (dropWhile isspace v)"
    unfolding subject_def by (rule skip_sign_length)
  also have "\<dots> \<le> length v"
    by (rule length_dropWhile_le)
  finally show ?thesis .
qed

lemma parts_length:
  "length (number_part v) + length (rest_part v) = length (snd (subject v))"
  unfolding number_part_def rest_part_def
  by (metis length_append takeWhile_dropWhile_id)

lemma strtol_parts:
  "strtol v =
     (if number_part v = [] then (0, 0)
      else (if number_value v > LONG_MAX then LONG_MAX
            else if number_value v < LONG_MIN then LONG_MIN else number_value v,
            length v - length (rest_part v)))"
proof -
  have "length v - length (snd (subject v)) + length (number_part v)
          = length v - length (rest_part v)"
    using subject_length [of v] parts_length [of v] by arith
  then show ?thesis
    by (simp add: strtol_def Let_def split_beta number_part_def number_value_def subject_def)
qed

lemma strtol_end:
  assumes "number_part v \<noteq> []"
  shows "snd (strtol v) \<noteq> 0" and "snd (strtol v) < length v \<longleftrightarrow> rest_part v \<noteq> []"
proof -
  from assms have pos: "0 < length (number_part v)"
    by simp
  have e: "snd (strtol v) = length v - length (rest_part v)"
    by (simp add: strtol_parts assms)
  from pos subject_length [of v] parts_length [of v]
  show "snd (strtol v) \<noteq> 0"
    unfolding e by arith
  from pos subject_length [of v] parts_length [of v]
  have "length v - length (rest_part v) < length v \<longleftrightarrow> 0 < length (rest_part v)"
    by arith
  then show "snd (strtol v) < length v \<longleftrightarrow> rest_part v \<noteq> []"
    unfolding e by simp
qed

lemma env_or_default_int_parts:
  "env_or_default_int environ name defval =
     (case environ name of
        None \<Rightarrow> defval
      | Some v \<Rightarrow>
          if number_part v = [] \<or> rest_part v \<noteq> []
             \<or> number_value v < 0 \<or> number_value v > 1000000
          then defval else number_value v)"
proof (cases "environ name")
  case None
  then show ?thesis by (simp add: env_or_default_int_def)
next
  case (Some v)
  show ?thesis
  proof (cases "number_part v = []")
    case True
    then have "strtol v = (0, 0)" by (simp add: strtol_parts)
    with Some True show ?thesis by (simp add: env_or_default_int_def)
  next
    case False
    then have "v \<noteq> []"
      by (auto simp: number_part_def subject_def skip_sign_def)
    moreover note strtol_end [OF False]
    moreover have "fst (strtol v) =
      (if number_value v > LONG_MAX then LONG_MAX
       else if number_value v < LONG_MIN then LONG_MIN else number_value v)"
      using False by (simp add: strtol_parts)
    ultimately show ?thesis
      using Some False
      by (auto simp: env_or_default_int_def split_beta Let_def LONG_MAX_def LONG_MIN_def)
  qed
qed

lemma env_or_default_int_range:
  assumes "0 \<le> defval" and "defval \<le> 1000000"
  shows "0 \<le> env_or_default_int environ name defval"
    and "env_or_default_int environ name defval \<le> 1000000"
  using assms by (auto simp: env_or_default_int_parts split: option.splits)

lemma isdigit_not_isspace: "isdigit c \<Longrightarrow> \<not> isspace c"
  by (auto simp: isdigit_def isspace_def)

lemma isdigit_not_sign: "isdigit c \<Longrightarrow> c \<noteq> CHR ''-'' \<and> c \<noteq> CHR ''+''"
  by (auto simp: isdigit_def)

text \<open>The parts of a value written as white space, an optional sign, digits and a rest
  that does not go on with a digit.\<close>

lemma parts_of_shape:
  assumes ws: "list_all isspace ws" and sg: "sg = [] \<or> sg = ''+'' \<or> sg = ''-''"
    and ds: "ds \<noteq> []" "list_all isdigit ds"
    and rest: "rest = [] \<or> \<not> isdigit (hd rest)"
  shows "number_part (ws @ sg @ ds @ rest) = ds"
    and "rest_part (ws @ sg @ ds @ rest) = rest"
    and "number_value (ws @ sg @ ds @ rest)
           = (if sg = ''-'' then - digits_value 0 ds else digits_value 0 ds)"
proof -
  from ds obtain d ds' where d: "ds = d # ds'" "isdigit d"
    by (cases ds) auto
  have "dropWhile isspace (ws @ sg @ ds @ rest) = dropWhile isspace (sg @ ds @ rest)"
    using ws by (simp add: list_all_iff)
  also have "\<dots> = sg @ ds @ rest"
    using sg d isdigit_not_isspace [of d] by (auto simp: isspace_def)
  finally have subj: "subject (ws @ sg @ ds @ rest) = (sg = ''-'', ds @ rest)"
    using sg d isdigit_not_sign [of d] by (auto simp: subject_def skip_sign_def)
  have digits: "takeWhile isdigit (ds @ rest) = ds"
    using ds(2) rest by (cases rest) (simp_all add: list_all_iff)
  have after: "dropWhile isdigit (ds @ rest) = rest"
    using ds(2) rest by (cases rest) (simp_all add: list_all_iff)
  show "number_part (ws @ sg @ ds @ rest) = ds"
    unfolding number_part_def subj by (simp add: digits)
  show "rest_part (ws @ sg @ ds @ rest) = rest"
    unfolding rest_part_def subj by (simp add: after)
  show "number_value (ws @ sg @ ds @ rest)
           = (if sg = ''-'' then - digits_value 0 ds else digits_value 0 ds)"
    unfolding number_value_def number_part_def subj by (simp add: digits)
qed

text \<open>
  Claim C10. \<^verbatim>\<open>env_or_default_int\<close> returns the coded default for a variable that is
  unset or empty, for a value in which \<^verbatim>\<open>strtol\<close> finds no digits to convert, for a value
  with anything left after the digits (such as white space, an optional sign and digits
  followed by a character that is not a digit), for a negative number and for a number
  above 1000000; any other value is returned as the number it denotes. So whenever the
  default lies between 0 and 1000000 the result does, and the
  broker port and the two backoff bounds that \<^verbatim>\<open>main\<close> reads (defaults 1883, 2 and 60)
  always lie between 0 and 1000000.
\<close>

theorem env_int_defaults_and_range:
  "(environ name = None \<longrightarrow> env_or_default_int environ name defval = defval)
   \<and> (environ name = Some [] \<longrightarrow> env_or_default_int environ name defval = defval)
   \<and> (environ name = Some v \<and> number_part v = [] \<longrightarrow>
        env_or_default_int environ name defval = defval)
   \<and> (environ name = Some v \<and> rest_part v \<noteq> [] \<longrightarrow>
        env_or_default_int environ name defval = defval)
   \<and> (environ name = Some (ws @ sg @ ds @ c # rest) \<and> list_all isspace ws
        \<and> (sg = [] \<or> sg = ''+'' \<or> sg = ''-'') \<and> ds \<noteq> [] \<and> list_all isdigit ds
        \<and> \<not> isdigit c \<longrightarrow>
        env_or_default_int environ name defval = defval)
   \<and> (environ name = Some v \<and> number_value v < 0 \<longrightarrow>
        env_or_default_int environ name defval = defval)
   \<and> (environ name = Some v \<and> number_value v > 1000000 \<longrightarrow>
        env_or_default_int environ name defval = defval)
   \<and> (environ name = Some v \<and> number_part v \<noteq> [] \<and> rest_part v = []
        \<and> 0 \<le> number_value v \<and> number_value v \<le> 1000000 \<longrightarrow>
        env_or_default_int environ name defval = number_value v)
   \<and> (0 \<le> defval \<and> defval \<le> 1000000 \<longrightarrow>
        0 \<le> env_or_default_int environ name defval
        \<and> env_or_default_int environ name defval \<le> 1000000)
   \<and> 0 \<le> g_broker_port (load_config environ s)
   \<and> g_broker_port (load_config environ s) \<le> 1000000
   \<and> 0 \<le> g_reconnect_min (load_config environ s)
   \<and> g_reconnect_min (load_config environ s) \<le> 1000000
   \<and> 0 \<le> g_reconnect_max (load_config environ s)
   \<and> g_reconnect_max (load_config environ s) \<le> 1000000"
proof -
  have empty: "number_part [] = []"
    by (simp add: number_part_def subject_def skip_sign_def)
  have rejected: "(environ name = None \<longrightarrow> env_or_default_int environ name defval = defval)
   \<and> (environ name = Some [] \<longrightarrow> env_or_default_int environ name defval = defval)
   \<and> (environ name = Some v \<and> number_part v = [] \<longrightarrow>
        env_or_default_int environ name defval = defval)
   \<and> (environ name = Some v \<and> rest_part v \<noteq> [] \<longrightarrow>
        env_or_default_int environ name defval = defval)
   \<and> (environ name = Some v \<and> number_value v < 0 \<longrightarrow>
        env_or_default_int environ name defval = defval)
   \<and> (environ name = Some v \<and> number_value v > 1000000 \<longrightarrow>
        env_or_default_int environ name defval = defval)"
    by (auto simp: env_or_default_int_parts empty)
  have trailing: "environ name = Some (ws @ sg @ ds @ c # rest) \<and> list_all isspace ws
        \<and> (sg = [] \<or> sg = ''+'' \<or> sg = ''-'') \<and> ds \<noteq> [] \<and> list_all isdigit ds
        \<and> \<not> isdigit c \<longrightarrow>
        env_or_default_int environ name defval = defval"
  proof (intro impI, elim conjE)
    assume v: "environ name = Some (ws @ sg @ ds @ c # rest)"
      and shape: "list_all isspace ws" "sg = [] \<or> sg = ''+'' \<or> sg = ''-''" "ds \<noteq> []"
        "list_all isdigit ds" "\<not> isdigit c"
    from shape have "rest_part (ws @ sg @ ds @ c # rest) = c # rest"
      by (intro parts_of_shape) simp_all
    with v show "env_or_default_int environ name defval = defval"
      by (simp add: env_or_default_int_parts)
  qed
  have accepted: "environ name = Some v \<and> number_part v \<noteq> [] \<and> rest_part v = []
        \<and> 0 \<le> number_value v \<and> number_value v \<le> 1000000 \<longrightarrow>
        env_or_default_int environ name defval = number_value v"
    by (auto simp: env_or_default_int_parts)
  have range: "0 \<le> defval \<and> defval \<le> 1000000 \<longrightarrow>
        0 \<le> env_or_default_int environ name defval
        \<and> env_or_default_int environ name defval \<le> 1000000"
    using env_or_default_int_range [of defval environ name] by blast
  have config: "0 \<le> g_broker_port (load_config environ s)
   \<and> g_broker_port (load_config environ s) \<le> 1000000
   \<and> 0 \<le> g_reconnect_min (load_config environ s)
   \<and> g_reconnect_min (load_config environ s) \<le> 1000000
   \<and> 0 \<le> g_reconnect_max (load_config environ s)
   \<and> g_reconnect_max (load_config environ s) \<le> 1000000"
    by (simp add: load_config_def env_or_default_int_range)
  from rejected trailing accepted range config show ?thesis
    by blast
qed

theorem env_int_defaults_and_range_witness:
  "env_or_default_int Map.empty ''MQTT_PORT'' 1883 = 1883
   \<and> env_or_default_int [''MQTT_PORT'' \<mapsto> []] ''MQTT_PORT'' 1883 = 1883
   \<and> env_or_default_int [''MQTT_PORT'' \<mapsto> ''abc''] ''MQTT_PORT'' 1883 = 1883
   \<and> env_or_default_int [''MQTT_PORT'' \<mapsto> ''42abc''] ''MQTT_PORT'' 1883 = 1883
   \<and> env_or_default_int [''MQTT_PORT'' \<mapsto> ''-5''] ''MQTT_PORT'' 1883 = 1883
   \<and> env_or_default_int [''MQTT_PORT'' \<mapsto> ''1000001''] ''MQTT_PORT'' 1883 = 1883
   \<and> env_or_default_int [''MQTT_PORT'' \<mapsto> ''8080''] ''MQTT_PORT'' 1883 = 8080
   \<and> 0 \<le> env_or_default_int [''MQTT_PORT'' \<mapsto> ''8080''] ''MQTT_PORT'' 1883
   \<and> env_or_default_int [''MQTT_PORT'' \<mapsto> ''8080''] ''MQTT_PORT'' 1883 \<le> 1000000"
  using env_int_defaults_and_range
      [where environ = Map.empty and name = "''MQTT_PORT''" and defval = 1883]
    env_int_defaults_and_range
      [where environ = "[''MQTT_PORT'' \<mapsto> []]" and name = "''MQTT_PORT''"
         and defval = 1883]
    env_int_defaults_and_range
      [where environ = "[''MQTT_PORT'' \<mapsto> ''abc'']" and name = "''MQTT_PORT''"
         and defval = 1883 and v = "''abc''"]
    env_int_defaults_and_range
      [where environ = "[''MQTT_PORT'' \<mapsto> ''42abc'']" and name = "''MQTT_PORT''"
         and defval = 1883 and v = "''42abc''" and ws = "[]" and sg = "[]"
         and ds = "''42''" and c = "CHR ''a''" and rest = "''bc''"]
    env_int_defaults_and_range
      [where environ = "[''MQTT_PORT'' \<mapsto> ''-5'']" and name = "''MQTT_PORT''"
         and defval = 1883 and v = "''-5''"]
    env_int_defaults_and_range
      [where environ = "[''MQTT_PORT'' \<mapsto> ''1000001'']" and name = "''MQTT_PORT''"
         and defval = 1883 and v = "''1000001''"]
    env_int_defaults_and_range
      [where environ = "[''MQTT_PORT'' \<mapsto> ''8080'']" and name = "''MQTT_PORT''"
         and defval = 1883 and v = "''8080''"]
  by (simp add: number_part_def rest_part_def number_value_def subject_def skip_sign_def
      isspace_def isdigit_def)

section \<open>The statement is prepared whenever a callback runs\<close>

text \<open>\<^verbatim>\<open>main\<close> enters the loop only after \<^verbatim>\<open>db_init\<close> has returned 0, and no callback
  closes the database or finalises the statement. So every insert call of a run finds
  the state that the properties of the store writer ask for.\<close>

lemma db_init_ok_ready:
  assumes "fst (db_init f1 f2 f3 path s) = 0"
  shows "store_ready (snd (db_init f1 f2 f3 path s))"
proof -
  from db_init_ok_nofault [OF assms] have nf: "f1 = NoFault" "f2 = NoFault" "f3 = NoFault"
    by simp_all
  show ?thesis
    using assms unfolding nf db_init_nofault
    by (cases "files s path")
       (auto simp: Let_def split_beta store_ready_def split: if_splits)
qed

lemma store_ready_emit: "store_ready (emit es s) = store_ready s"
  by (simp add: store_ready_def emit_def split: option.splits)

lemma store_ready_repair:
  "store_ready (snd (run_network_repair_script now sys_rc s)) = store_ready s"
  by (simp add: run_network_repair_script_def store_ready_def emit_def Let_def
      split: option.splits)

lemma store_ready_dispatch: "store_ready s \<Longrightarrow> store_ready (dispatch e s)"
proof (cases e)
  case (Connected rc sub_rc)
  assume "store_ready s"
  with Connected show ?thesis
    by (simp add: handle_connect_def Let_def store_ready_emit)
next
  case (Disconnected rc now sys_rc)
  assume "store_ready s"
  with Disconnected show ?thesis
    by (simp add: handle_disconnect_def store_ready_repair store_ready_emit)
next
  case (Message msg now malloc_ok f_step)
  assume "store_ready s"
  with Message show ?thesis
    by (cases msg) (simp_all add: handle_message_def store_ready_emit insert_keeps_ready)
next
  case (Signal sig)
  assume "store_ready s"
  with Signal show ?thesis
    by (simp add: on_signal_def Let_def store_ready_def emit_def split: option.splits)
qed

lemma store_ready_run_callbacks:
  "store_ready s \<Longrightarrow> store_ready (run_callbacks es s)"
  by (induction es arbitrary: s) (simp_all add: store_ready_dispatch)

lemma main_runs_loop:
  assumes init: "fst (db_init (env_f_open env) (env_f_ddl env) (env_f_prepare env)
                   (g_db_path (load_config (env_vars env) (initial_state fs)))
                   (load_config (env_vars env) (initial_state fs))) = 0"
    and new: "env_mosq_new_ok env"
  shows "main env fs =
     (0, db_close (emit [MosqDestroy, MosqLibCleanup]
        (let s8 = mosquitto_loop_forever (env_loop_events env) (loop_entry env fs)
         in if env_loop_rc env \<noteq> MOSQ_ERR_SUCCESS
            then emit [StderrLoopEnded (env_loop_rc env)] s8 else s8)))"
  using init new
  by (simp add: main_def loop_entry_def Let_def split_beta emit_def)

lemma loop_entry_ready:
  assumes init: "fst (db_init (env_f_open env) (env_f_ddl env) (env_f_prepare env)
                   (g_db_path (load_config (env_vars env) (initial_state fs)))
                   (load_config (env_vars env) (initial_state fs))) = 0"
  shows "store_ready (loop_entry env fs)"
proof -
  from db_init_ok_ready [OF init]
  have "store_ready (snd (db_init (env_f_open env) (env_f_ddl env) (env_f_prepare env)
                   (g_db_path (load_config (env_vars env) (initial_state fs)))
                   (load_config (env_vars env) (initial_state fs))))" .
  then show ?thesis
    by (simp add: loop_entry_def Let_def store_ready_repair store_ready_emit)
       (simp add: store_ready_def emit_def split: option.splits)
qed

text \<open>Every callback of a run of main finds the statement prepared.\<close>

lemma callbacks_find_store_ready:
  assumes init: "fst (db_init (env_f_open env) (env_f_ddl env) (env_f_prepare env)
                   (g_db_path (load_config (env_vars env) (initial_state fs)))
                   (load_config (env_vars env) (initial_state fs))) = 0"
  shows "store_ready (run_callbacks es (emit [MosqLoopForever] (loop_entry env fs)))"
  by (rule store_ready_run_callbacks) (simp add: store_ready_emit loop_entry_ready [OF init])

end
